theory Spec2Isabelle
  imports Complex_Main
begin

section \<open>Conditional k-nearest-neighbour matching: the notebook's orchestration\<close>

text \<open>
  The second notebook defines three Python functions of its own, \<open>add_matches\<close>,
  \<open>plot_img\<close>/\<open>plot_urls\<close> and \<open>test_all\<close>, over Spark tables, a fitted
  \<open>ConditionalKNN\<close> model, \<open>requests\<close>/\<open>PIL\<close> and \<open>matplotlib\<close>. The functions of
  the notebook are embedded as they are written; the library calls they make are
  embedded by their contracts. Exceptions are values: every function that can raise
  returns \<open>error + 'a\<close>, with \<open>Inl\<close> the exception.
\<close>

subsection \<open>Exceptions\<close>

datatype error =
    AnalysisException
  | SparkException
  | ValueError
  | IndexError
  | TypeError
  | AttributeError
  | RequestException
  | UnidentifiedImageError

subsection \<open>Tables\<close>

text \<open>
  One element of a \<open>Matches\<close> cell: the struct \<open>(value, distance, label)\<close> the model
  returns for a neighbour. The value is the neighbour's thumbnail reference, \<open>None\<close>
  when the entity has none.
\<close>

record match =
  value_of :: "string option"
  distance_of :: real
  label_of :: string

text \<open>
  A cell of a table: a string, an embedding vector, an array of strings (the
  \<open>conditioner\<close>), a list of matches, or null.
\<close>

datatype cell =
    NullC
  | StringC string
  | VectorC "real list"
  | ArrayC "string list"
  | MatchesC "match list"

text \<open>
  A Spark table: the column names in order (duplicates are possible, as in Spark) and
  the rows in order, each row holding one cell per column. Spark evaluates a table
  lazily; here every operation is evaluated at once, so a failure of a row surfaces at
  the operation that computes the row.
\<close>

record dataframe =
  columns :: "string list"
  rows :: "cell list list"

definition well_formed :: "dataframe \<Rightarrow> bool" where
  "well_formed df = list_all (\<lambda>r. length r = length (columns df)) (rows df)"

text \<open>Python's \<open>list.index\<close>, for an element that is in the list.\<close>

fun index :: "'a list \<Rightarrow> 'a \<Rightarrow> nat" where
  "index [] x = 0"
| "index (y # ys) x = (if y = x then 0 else Suc (index ys x))"

definition nth_cell :: "cell list \<Rightarrow> nat \<Rightarrow> cell" where
  "nth_cell r i = (if i < length r then r ! i else NullC)"

text \<open>
  Spark resolves column names without regard to case (its default setting,
  \<open>equalsIgnoreCase\<close>): \<open>Conditioner\<close> and \<open>conditioner\<close> are one name. The letters
  folded here are the ASCII letters, which are the letters of the notebook's names.
\<close>

definition lower :: "char \<Rightarrow> char" where
  "lower c =
     (case map_of (zip ''ABCDEFGHIJKLMNOPQRSTUVWXYZ'' ''abcdefghijklmnopqrstuvwxyz'') c of
        None \<Rightarrow> c
      | Some d \<Rightarrow> d)"

definition same_name :: "string \<Rightarrow> string \<Rightarrow> bool" where
  "same_name a b = (map lower a = map lower b)"

text \<open>The columns a name resolves to, and the place of the first of them.\<close>

definition named :: "string list \<Rightarrow> string \<Rightarrow> string list" where
  "named cols name = filter (\<lambda>c. same_name c name) cols"

fun position :: "string list \<Rightarrow> string \<Rightarrow> nat" where
  "position [] name = 0"
| "position (c # cs) name = (if same_name c name then 0 else Suc (position cs name))"

text \<open>
  A column reference \<open>col(name)\<close> resolves when the name resolves to exactly one
  column; otherwise the analysis fails (the name is unknown, or ambiguous).
\<close>

definition resolve :: "string list \<Rightarrow> string \<Rightarrow> error + nat" where
  "resolve cols name =
     (if length (named cols name) = 1 then Inr (position cols name)
      else Inl AnalysisException)"

text \<open>
  A list comprehension \<open>[f(x) for x in xs]\<close> whose body may raise: the first
  exception leaves the comprehension.
\<close>

fun for_list :: "('a \<Rightarrow> error + 'b) \<Rightarrow> 'a list \<Rightarrow> error + 'b list" where
  "for_list f [] = Inr []"
| "for_list f (x # xs) =
     (case f x of
        Inl e \<Rightarrow> Inl e
      | Inr y \<Rightarrow> (case for_list f xs of Inl e \<Rightarrow> Inl e | Inr ys \<Rightarrow> Inr (y # ys)))"

text \<open>
  \<open>df.withColumn(colName, col)\<close>: every column the name resolves to is replaced in its
  place by the new column, which is named \<open>colName\<close>; when there is none, the new
  column is appended. \<open>set_name\<close> is what this does to the column names and
  \<open>set_cell\<close> what it does to a row. The column expression is given as the function
  computing the new cell from a row.
\<close>

definition set_name :: "string list \<Rightarrow> string \<Rightarrow> string list" where
  "set_name cols colName =
     (if named cols colName \<noteq> [] then map (\<lambda>c. if same_name c colName then colName else c) cols
      else cols @ [colName])"

definition set_cell :: "string list \<Rightarrow> string \<Rightarrow> cell \<Rightarrow> cell list \<Rightarrow> cell list" where
  "set_cell cols colName v r =
     (if named cols colName \<noteq> [] then map2 (\<lambda>c x. if same_name c colName then v else x) cols r
      else r @ [v])"

definition withColumn ::
  "string \<Rightarrow> (cell list \<Rightarrow> error + cell) \<Rightarrow> dataframe \<Rightarrow> error + dataframe" where
  "withColumn colName col df =
     (case for_list (\<lambda>r. case col r of Inl e \<Rightarrow> Inl e
                          | Inr v \<Rightarrow> Inr (set_cell (columns df) colName v r)) (rows df) of
        Inl e \<Rightarrow> Inl e
      | Inr rs \<Rightarrow> Inr \<lparr>columns = set_name (columns df) colName, rows = rs\<rparr>)"

text \<open>The column expression \<open>array(lit(label))\<close>: the same one-element array in every row.\<close>

definition array_lit :: "string \<Rightarrow> cell list \<Rightarrow> error + cell" where
  "array_lit s r = Inr (ArrayC [s])"

text \<open>
  \<open>df.withColumnRenamed(existing, new)\<close>: renames the columns the name \<open>existing\<close>
  resolves to; a table without such a column is returned as it is.
\<close>

definition withColumnRenamed :: "string \<Rightarrow> string \<Rightarrow> dataframe \<Rightarrow> dataframe" where
  "withColumnRenamed existing new df =
     \<lparr>columns = map (\<lambda>c. if same_name c existing then new else c) (columns df),
      rows = rows df\<rparr>"

text \<open>
  \<open>df.where(udf(p)(name))\<close>: the rows whose cell in the column satisfies \<open>p\<close>, in
  their order. The Python function \<open>p\<close> may raise on a cell.
\<close>

definition where_udf ::
  "(cell \<Rightarrow> error + bool) \<Rightarrow> string \<Rightarrow> dataframe \<Rightarrow> error + dataframe" where
  "where_udf p name df =
     (case resolve (columns df) name of
        Inl e \<Rightarrow> Inl e
      | Inr i \<Rightarrow>
          (case for_list (\<lambda>r. p (nth_cell r i)) (rows df) of
             Inl e \<Rightarrow> Inl e
           | Inr keep \<Rightarrow>
               Inr \<lparr>columns = columns df,
                    rows = map fst (filter snd (zip (rows df) keep))\<rparr>))"

text \<open>
  \<open>df.collect()\<close>: the rows as \<open>Row\<close> objects, each with the field names. \<open>row[item]\<close>
  is Python: it reads the first field with exactly that name and raises \<open>ValueError\<close>
  when there is none.
\<close>

type_synonym row = "string list \<times> cell list"

definition collect :: "dataframe \<Rightarrow> row list" where
  "collect df = map (\<lambda>r. (columns df, r)) (rows df)"

definition getitem :: "row \<Rightarrow> string \<Rightarrow> error + cell" where
  "getitem r item =
     (if item \<in> set (fst r) then Inr (nth_cell (snd r) (index (fst r) item))
      else Inl ValueError)"

subsection \<open>The conditional match index\<close>

text \<open>
  The fitted \<open>ConditionalKNNModel\<close>: its column parameters, the result count \<open>k\<close>, and
  the entities it was fitted on (embedding, value, label). The distance on embeddings
  is the library's; it is a parameter of the model here.
\<close>

record entity =
  features :: "real list"
  thumbnail :: "string option"
  category :: string

record cknn =
  outputCol :: string
  featuresCol :: string
  valuesCol :: string
  labelCol :: string
  conditionerCol :: string
  k :: nat
  metric :: "real list \<Rightarrow> real list \<Rightarrow> real"
  ballTree :: "entity list"

text \<open>
  Modelled from the spec: the query of the index, whose code (the library's ball tree)
  is not in the notebook. For a query vector and a set of admitted labels it returns
  the entities whose label is admitted, ranked by ascending distance from the query,
  at most \<open>k\<close> of them; entities at the same distance keep the order of the index.
\<close>

definition to_match :: "cknn \<Rightarrow> real list \<Rightarrow> entity \<Rightarrow> match" where
  "to_match m v e =
     \<lparr>value_of = thumbnail e, distance_of = metric m v (features e), label_of = category e\<rparr>"

definition query :: "cknn \<Rightarrow> real list \<Rightarrow> string list \<Rightarrow> match list" where
  "query m v conditioner =
     take (k m)
       (sort_key distance_of
          (map (to_match m v) (filter (\<lambda>e. category e \<in> set conditioner) (ballTree m))))"

text \<open>
  Modelled from the spec: \<open>ConditionalKNNModel.transform\<close>, which is not in the notebook.
  It reads each row's embedding from the features column and the admitted labels from
  the conditioner column, and puts the row's match list in the output column, as a
  Spark transformer does (\<open>withColumn\<close>). A row without an embedding or a conditioner
  fails. The model has no mutation operations: it is returned as it was.
\<close>

definition transform_row :: "cknn \<Rightarrow> nat \<Rightarrow> nat \<Rightarrow> cell list \<Rightarrow> error + cell" where
  "transform_row m fi ci r =
     (case nth_cell r fi of
        VectorC v \<Rightarrow>
          (case nth_cell r ci of
             ArrayC conditioner \<Rightarrow> Inr (MatchesC (query m v conditioner))
           | _ \<Rightarrow> Inl SparkException)
      | _ \<Rightarrow> Inl SparkException)"

definition transform :: "cknn \<Rightarrow> dataframe \<Rightarrow> (error + dataframe) \<times> cknn" where
  "transform m df =
     (case resolve (columns df) (featuresCol m) of
        Inl e \<Rightarrow> (Inl e, m)
      | Inr fi \<Rightarrow>
          (case resolve (columns df) (conditionerCol m) of
             Inl e \<Rightarrow> (Inl e, m)
           | Inr ci \<Rightarrow> (withColumn (outputCol m) (transform_row m fi ci) df, m)))"

text \<open>
  Modelled from the spec: the estimator \<open>ConditionalKNN()\<close> and \<open>fit\<close>; neither is in
  the notebook. The notebook never sets \<open>k\<close>, so its models get the default of the
  library, whatever it is: the default is the argument \<open>k0\<close>. The conditioner column
  is the one \<open>add_matches\<close> writes. The notebook sets the other four column
  parameters, so their defaults do not matter. Fitting fails when an entity lacks the
  embedding or the label.
\<close>

definition ConditionalKNN :: "(real list \<Rightarrow> real list \<Rightarrow> real) \<Rightarrow> nat \<Rightarrow> cknn" where
  "ConditionalKNN d k0 =
     \<lparr>outputCol = ''output'', featuresCol = ''features'', valuesCol = ''values'',
      labelCol = ''labels'', conditionerCol = ''conditioner'', k = k0, metric = d,
      ballTree = []\<rparr>"

definition to_entity :: "nat \<Rightarrow> nat \<Rightarrow> nat \<Rightarrow> cell list \<Rightarrow> error + entity" where
  "to_entity fi vi li r =
     (case nth_cell r fi of
        VectorC v \<Rightarrow>
          (case nth_cell r li of
             StringC l \<Rightarrow>
               Inr \<lparr>features = v,
                    thumbnail = (case nth_cell r vi of StringC u \<Rightarrow> Some u | _ \<Rightarrow> None),
                    category = l\<rparr>
           | _ \<Rightarrow> Inl SparkException)
      | _ \<Rightarrow> Inl SparkException)"

definition fit :: "cknn \<Rightarrow> dataframe \<Rightarrow> error + cknn" where
  "fit est df =
     (case resolve (columns df) (featuresCol est) of
        Inl e \<Rightarrow> Inl e
      | Inr fi \<Rightarrow>
          (case resolve (columns df) (valuesCol est) of
             Inl e \<Rightarrow> Inl e
           | Inr vi \<Rightarrow>
               (case resolve (columns df) (labelCol est) of
                  Inl e \<Rightarrow> Inl e
                | Inr li \<Rightarrow>
                    (case for_list (to_entity fi vi li) (rows df) of
                       Inl e \<Rightarrow> Inl e
                     | Inr es \<Rightarrow> Inr (est\<lparr>ballTree := es\<rparr>)))))"

subsection \<open>The notebook's globals\<close>

definition mediums :: "string list" where
  "mediums = [''paintings'', ''glass'', ''ceramics'']"

definition cultures :: "string list" where
  "cultures = [''japanese'', ''american'', ''african (general)'']"


definition culture_cknn ::
  "(real list \<Rightarrow> real list \<Rightarrow> real) \<Rightarrow> nat \<Rightarrow> dataframe \<Rightarrow> error + cknn" where
  "culture_cknn d k0 small_df =
     fit ((ConditionalKNN d k0)\<lparr>outputCol := ''Matches'', featuresCol := ''Norm_Features'',
            valuesCol := ''Thumbnail_Url'', labelCol := ''Culture''\<rparr>) small_df"

subsection \<open>The query orchestrator\<close>

text \<open>
  \<^verbatim>\<open>
  def add_matches(classes, cknn, df):
    results = df
    for label in classes:
      results = (cknn.transform(results.withColumn("conditioner", array(lit(label))))
                   .withColumnRenamed("Matches", "Matches_{}".format(label)))
    return results
  \<close>
  The method \<open>cknn.transform\<close> is bound late in Python: it is the argument \<open>tr\<close>, applied
  to the model object, and it returns the table with the object as the call left it.
  The function returns the final table, or the exception that left the loop, with the
  model object as the calls left it.
\<close>

definition match_column :: "string \<Rightarrow> string" where
  "match_column label = ''Matches_'' @ label"

fun add_matches ::
  "('m \<Rightarrow> dataframe \<Rightarrow> (error + dataframe) \<times> 'm) \<Rightarrow> string list \<Rightarrow> 'm \<Rightarrow> dataframe
     \<Rightarrow> (error + dataframe) \<times> 'm" where
  "add_matches tr [] cknn results = (Inr results, cknn)"
| "add_matches tr (label # classes) cknn results =
     (case withColumn ''conditioner'' (array_lit label) results of
        Inl e \<Rightarrow> (Inl e, cknn)
      | Inr conditioned \<Rightarrow>
          (case tr cknn conditioned of
             (Inl e, cknn') \<Rightarrow> (Inl e, cknn')
           | (Inr matched, cknn') \<Rightarrow>
               add_matches tr classes cknn'
                 (withColumnRenamed ''Matches'' (match_column label) matched)))"

subsection \<open>The result presenter\<close>

text \<open>
  The network and the image decoder are the environment: \<open>requests.get(url)\<close> gives
  the response's content or raises, \<open>Image.open\<close> decodes the content or raises.
\<close>

record 'img net =
  requests_get :: "cell \<Rightarrow> error + string"
  image_open :: "string \<Rightarrow> error + 'img"

text \<open>
  What one subplot shows: its image and its title, each absent until set. A figure is
  the grid of its subplots, row by row.
\<close>

type_synonym 'img axis = "'img option \<times> string option"

type_synonym 'img figure = "'img axis list list"

text \<open>
  \<^verbatim>\<open>
  def plot_img(axis, url, title):
    response = requests.get(url)
    img = Image.open(BytesIO(response.content)).convert('RGB')
    axis.imshow(img, aspect="equal")
    if title is not None: axis.set_title(title,  fontsize=4)
    axis.axis("off")
  \<close>
\<close>

definition plot_img :: "'img net \<Rightarrow> 'img axis \<Rightarrow> cell \<Rightarrow> string option \<Rightarrow> error + 'img axis" where
  "plot_img net axis url title =
     (case requests_get net url of
        Inl e \<Rightarrow> Inl e
      | Inr content \<Rightarrow>
          (case image_open net content of
             Inl e \<Rightarrow> Inl e
           | Inr img \<Rightarrow> Inr (Some img, (case title of None \<Rightarrow> snd axis | Some t \<Rightarrow> Some t))))"

text \<open>
  A two-dimensional array is the list of its rows. \<open>a[i, j]\<close> and \<open>titles[i]\<close> raise
  \<open>IndexError\<close> out of range.
\<close>

definition shape :: "'a list list \<Rightarrow> nat \<times> nat" where
  "shape a = (length a, (case a of [] \<Rightarrow> 0 | r # rs \<Rightarrow> length r))"

definition item2 :: "'a list list \<Rightarrow> nat \<Rightarrow> nat \<Rightarrow> error + 'a" where
  "item2 a i j = (if i < length a \<and> j < length (a ! i) then Inr (a ! i ! j) else Inl IndexError)"

definition item :: "'a list \<Rightarrow> nat \<Rightarrow> error + 'a" where
  "item xs i = (if i < length xs then Inr (xs ! i) else Inl IndexError)"

text \<open>
  \<open>plt.subplots(nrows, ncols)\<close>: a new figure of \<open>nrows\<close> by \<open>ncols\<close> empty subplots,
  and the array of its axes, each axis given by its place (row, column) in the figure.
  The array is squeezed: one \<open>Axes\<close> object for a single subplot, a one-dimensional
  array for a single row or a single column. A grid without rows or columns is a
  \<open>ValueError\<close>.
\<close>

datatype axes = AxesObject | Axes1 "(nat \<times> nat) list" | Axes2 "(nat \<times> nat) list list"

definition subplots :: "nat \<Rightarrow> nat \<Rightarrow> error + ('img figure \<times> axes)" where
  "subplots nrows ncols =
     (if nrows = 0 \<or> ncols = 0 then Inl ValueError
      else Inr (replicate nrows (replicate ncols (None, None)),
                if nrows = 1 \<and> ncols = 1 then AxesObject
                else if nrows = 1 then Axes1 (map (\<lambda>i. (0, i)) [0..<ncols])
                else if ncols = 1 then Axes1 (map (\<lambda>j. (j, 0)) [0..<nrows])
                else Axes2 (map (\<lambda>j. map (\<lambda>i. (j, i)) [0..<ncols]) [0..<nrows])))"

text \<open>
  \<open>if len(axes.shape) == 1: axes = axes.reshape(1, -1)\<close>: a single \<open>Axes\<close> object has
  no \<open>shape\<close>.
\<close>

fun reshape_1d :: "axes \<Rightarrow> error + (nat \<times> nat) list list" where
  "reshape_1d AxesObject = Inl AttributeError"
| "reshape_1d (Axes1 xs) = Inr [xs]"
| "reshape_1d (Axes2 xss) = Inr xss"

text \<open>A \<open>for\<close> loop whose body may raise: the first exception leaves the loop.\<close>

fun for_each :: "'a list \<Rightarrow> ('a \<Rightarrow> 's \<Rightarrow> error + 's) \<Rightarrow> 's \<Rightarrow> error + 's" where
  "for_each [] body s = Inr s"
| "for_each (x # xs) body s =
     (case body x s of Inl e \<Rightarrow> Inl e | Inr s' \<Rightarrow> for_each xs body s')"

text \<open>
  \<^verbatim>\<open>
  def plot_urls(url_arr, titles, filename):
    nx, ny = url_arr.shape
    plt.figure(figsize=(nx*5, ny*5), dpi=1600)
    fig, axes = plt.subplots(ny,nx)
    # reshape required in the case of 1 image query
    if len(axes.shape) == 1:
      axes = axes.reshape(1, -1)
    for i in range(nx):
       for j in range(ny):
            if j == 0:
              plot_img(axes[j, i], url_arr[i,j], titles[i])
            else:
              plot_img(axes[j, i],  url_arr[i,j], None)
    plt.savefig(filename, dpi=1600) # saves the results as a PNG
    display(plt.show())
  \<close>
  The body of the inner loop is \<open>plot_cell\<close>. The files written so far are threaded
  through: \<open>savefig\<close> adds the figure under its name. The file system is taken to
  accept the file, and \<open>display(plt.show())\<close>, which draws nothing further, is left
  out.
\<close>

definition plot_cell ::
  "'img net \<Rightarrow> cell list list \<Rightarrow> string list \<Rightarrow> (nat \<times> nat) list list \<Rightarrow> nat \<Rightarrow> nat
     \<Rightarrow> 'img figure \<Rightarrow> error + 'img figure" where
  "plot_cell net url_arr titles axs i j fig =
     (case item2 axs j i of
        Inl e \<Rightarrow> Inl e
      | Inr (a, b) \<Rightarrow>
          (case item2 url_arr i j of
             Inl e \<Rightarrow> Inl e
           | Inr url \<Rightarrow>
               (case (if j = 0 then map_sum id Some (item titles i) else Inr None) of
                  Inl e \<Rightarrow> Inl e
                | Inr title \<Rightarrow>
                    (case plot_img net (fig ! a ! b) url title of
                       Inl e \<Rightarrow> Inl e
                     | Inr axis \<Rightarrow> Inr (fig[a := (fig ! a)[b := axis]])))))"

definition plot_urls ::
  "'img net \<Rightarrow> cell list list \<Rightarrow> string list \<Rightarrow> string \<Rightarrow> (string \<times> 'img figure) list
     \<Rightarrow> (error + unit) \<times> (string \<times> 'img figure) list" where
  "plot_urls net url_arr titles filename files =
     (case shape url_arr of
        (nx, ny) \<Rightarrow>
          (case subplots ny nx of
             Inl e \<Rightarrow> (Inl e, files)
           | Inr (fig, axs) \<Rightarrow>
               (case reshape_1d axs of
                  Inl e \<Rightarrow> (Inl e, files)
                | Inr axs' \<Rightarrow>
                    (case for_each [0..<nx]
                            (\<lambda>i. for_each [0..<ny] (plot_cell net url_arr titles axs' i)) fig of
                       Inl e \<Rightarrow> (Inl e, files)
                     | Inr fig' \<Rightarrow> (Inr (), files @ [(filename, fig')])))))"

subsection \<open>The whole run\<close>

text \<open>
  \<open>row[column][0]["value"]\<close>: the value of the first match of a cell. An empty list
  has no element 0 (\<open>IndexError\<close>); a string, a number of a vector or nothing has no
  item \<open>"value"\<close> (\<open>TypeError\<close>, and \<open>IndexError\<close> for the number, a numpy scalar).
\<close>

definition py_value :: "string option \<Rightarrow> cell" where
  "py_value v = (case v of None \<Rightarrow> NullC | Some u \<Rightarrow> StringC u)"

fun first_value :: "cell \<Rightarrow> error + cell" where
  "first_value (MatchesC []) = Inl IndexError"
| "first_value (MatchesC (m # ms)) = Inr (py_value (value_of m))"
| "first_value (ArrayC []) = Inl IndexError"
| "first_value (StringC []) = Inl IndexError"
| "first_value (VectorC v) = Inl IndexError"
| "first_value c = Inl TypeError"

text \<open>
  \<open>lambda obj: obj in test_ids\<close>, with \<open>test_ids\<close> a set of strings: a list cannot
  be hashed (\<open>TypeError\<close>); nothing and a vector are not in the set.
\<close>

definition is_nice_obj :: "string set \<Rightarrow> cell \<Rightarrow> error + bool" where
  "is_nice_obj test_ids obj =
     (case obj of
        StringC s \<Rightarrow> Inr (s \<in> test_ids)
      | NullC \<Rightarrow> Inr False
      | VectorC v \<Rightarrow> Inr False
      | ArrayC a \<Rightarrow> Inl TypeError
      | MatchesC ms \<Rightarrow> Inl TypeError)"

text \<open>
  The comprehension
  \<open>[[row["Matches_{}".format(label)][0]["value"] for row in results] for label in labels]\<close>.
\<close>

definition first_urls :: "row list \<Rightarrow> string list \<Rightarrow> error + cell list list" where
  "first_urls results labels =
     for_list (\<lambda>label. for_list (\<lambda>row.
        case getitem row (match_column label) of
          Inl e \<Rightarrow> Inl e
        | Inr c \<Rightarrow> first_value c) results) labels"

text \<open>
  \<^verbatim>\<open>
  def test_all(data, cknn_medium, cknn_culture, test_ids, root):
    is_nice_obj = udf(lambda obj: obj in test_ids, BooleanType())
    test_df = data.where(is_nice_obj("id"))
    results_df_medium = add_matches(mediums, cknn_medium, test_df)
    results_df_culture = add_matches(cultures, cknn_culture, results_df_medium)
    results = results_df_culture.collect()
    original_urls = [row["Thumbnail_Url"] for row in results]
    culture_urls = [ [row["Matches_{}".format(label)][0]["value"] for row in results] for label in cultures]
    culture_url_arr = np.array([original_urls] + culture_urls)[:, :]
    plot_urls(culture_url_arr, ["Original"] + cultures, root + "matches_by_culture.png")
    medium_urls = [ [row["Matches_{}".format(label)][0]["value"] for row in results] for label in mediums]
    medium_url_arr = np.array([original_urls] + medium_urls)[:, :]
    plot_urls(medium_url_arr, ["Original"] + mediums, root + "matches_by_medium.png")
    return results_df_culture
  \<close>
  The result is the returned table or the exception, with the files written by then
  (\<open>root\<close> is written \<open>root_dir\<close>).
\<close>

definition test_all ::
  "('m \<Rightarrow> dataframe \<Rightarrow> (error + dataframe) \<times> 'm) \<Rightarrow> 'img net \<Rightarrow> dataframe \<Rightarrow> 'm \<Rightarrow> 'm
     \<Rightarrow> string set \<Rightarrow> string \<Rightarrow> (error + dataframe) \<times> (string \<times> 'img figure) list" where
  "test_all tr net data cknn_medium cknn_culture test_ids root_dir =
     (case where_udf (is_nice_obj test_ids) ''id'' data of
        Inl e \<Rightarrow> (Inl e, [])
      | Inr test_df \<Rightarrow>
     (case fst (add_matches tr mediums cknn_medium test_df) of
        Inl e \<Rightarrow> (Inl e, [])
      | Inr results_df_medium \<Rightarrow>
     (case fst (add_matches tr cultures cknn_culture results_df_medium) of
        Inl e \<Rightarrow> (Inl e, [])
      | Inr results_df_culture \<Rightarrow>
     (case for_list (\<lambda>row. getitem row ''Thumbnail_Url'') (collect results_df_culture) of
        Inl e \<Rightarrow> (Inl e, [])
      | Inr original_urls \<Rightarrow>
     (case first_urls (collect results_df_culture) cultures of
        Inl e \<Rightarrow> (Inl e, [])
      | Inr culture_urls \<Rightarrow>
     (case plot_urls net (original_urls # culture_urls) (''Original'' # cultures)
             (root_dir @ ''matches_by_culture.png'') [] of
        (Inl e, files) \<Rightarrow> (Inl e, files)
      | (Inr u, files) \<Rightarrow>
     (case first_urls (collect results_df_culture) mediums of
        Inl e \<Rightarrow> (Inl e, files)
      | Inr medium_urls \<Rightarrow>
     (case plot_urls net (original_urls # medium_urls) (''Original'' # mediums)
             (root_dir @ ''matches_by_medium.png'') files of
        (Inl e, files') \<Rightarrow> (Inl e, files')
      | (Inr u, files') \<Rightarrow> (Inr results_df_culture, files')))))))))"

subsection \<open>Vocabulary of the properties\<close>

text \<open>The embedding a row holds in the model's features column, if it holds one.\<close>

fun vector_of :: "cell \<Rightarrow> real list option" where
  "vector_of (VectorC v) = Some v"
| "vector_of c = None"

definition embedding :: "cknn \<Rightarrow> dataframe \<Rightarrow> cell list \<Rightarrow> real list option" where
  "embedding m df r = vector_of (nth_cell r (position (columns df) (featuresCol m)))"

text \<open>The column parameters the notebook sets on both of its models.\<close>

definition notebook_model :: "cknn \<Rightarrow> bool" where
  "notebook_model m =
     (outputCol m = ''Matches'' \<and> featuresCol m = ''Norm_Features'' \<and>
      conditionerCol m = ''conditioner'')"

text \<open>
  A table of query entities, before a pass or between two passes: one cell per column
  in every row, exactly one features column, an embedding in every row, at most one
  column named \<open>conditioner\<close> (the table of an earlier pass has one) and no column
  named \<open>Matches\<close>. Names are meant as Spark resolves them.
\<close>

definition query_table :: "cknn \<Rightarrow> dataframe \<Rightarrow> bool" where
  "query_table m df =
     (well_formed df \<and> length (named (columns df) (featuresCol m)) = 1 \<and>
      length (named (columns df) ''conditioner'') \<le> 1 \<and>
      named (columns df) ''Matches'' = [] \<and>
      list_all (\<lambda>r. embedding m df r \<noteq> None) (rows df))"

text \<open>
  The table \<open>df\<close> after the passes for the labels of \<open>seen\<close>, the last of them for
  \<open>l0\<close>: its \<open>conditioner\<close> column holds \<open>[l0]\<close> in every row (written over the
  column the table had, or appended), and one match column per label of \<open>seen\<close>
  follows, in order, each holding the row's match list for that label.
\<close>

definition extended_row :: "cknn \<Rightarrow> dataframe \<Rightarrow> string \<Rightarrow> string list \<Rightarrow> cell list \<Rightarrow> cell list" where
  "extended_row m df l0 seen r =
     set_cell (columns df) ''conditioner'' (ArrayC [l0]) r @
     map (\<lambda>l. MatchesC (query m (the (embedding m df r)) [l])) seen"

definition extended :: "cknn \<Rightarrow> dataframe \<Rightarrow> string \<Rightarrow> string list \<Rightarrow> dataframe" where
  "extended m df l0 seen =
     \<lparr>columns = set_name (columns df) ''conditioner'' @ map match_column seen,
      rows = map (extended_row m df l0 seen) (rows df)\<rparr>"




text \<open>
  A subplot displays a URL when its image is what the network and the decoder give for
  the URL. A row of a figure presents a row of the result table for a list of labels
  when it has one subplot for the original and one per label, in order, the first
  displaying the row's \<open>Thumbnail_Url\<close> and the one of a label displaying the value of
  element 0 of the row's match list for that label.
\<close>

definition displays :: "'img net \<Rightarrow> 'img axis \<Rightarrow> cell \<Rightarrow> bool" where
  "displays net axis url =
     (case requests_get net url of
        Inl e \<Rightarrow> False
      | Inr content \<Rightarrow>
          (case image_open net content of
             Inl e \<Rightarrow> False
           | Inr img \<Rightarrow> fst axis = Some img))"

definition displays_first :: "'img net \<Rightarrow> 'img axis \<Rightarrow> error + cell \<Rightarrow> bool" where
  "displays_first net axis c =
     (case c of
        Inr (MatchesC ms) \<Rightarrow> ms \<noteq> [] \<and> displays net axis (py_value (value_of (ms ! 0)))
      | _ \<Rightarrow> False)"

definition presents :: "'img net \<Rightarrow> row \<Rightarrow> string list \<Rightarrow> 'img axis list \<Rightarrow> bool" where
  "presents net r labels panels =
     (length panels = Suc (length labels) \<and>
      (case getitem r ''Thumbnail_Url'' of
         Inl e \<Rightarrow> False
       | Inr url \<Rightarrow> displays net (panels ! 0) url) \<and>
      list_all (\<lambda>c. displays_first net (panels ! Suc c) (getitem r (match_column (labels ! c))))
        [0..<length labels])"

text \<open>
  What the subplot for \<open>url_arr[i, j]\<close> shows once \<open>plot_urls\<close> has drawn it, and the
  state of the figure when the loops have drawn the columns before \<open>i\<close> and the first
  \<open>jn\<close> rows of column \<open>i\<close>: the drawn subplots show their URLs, the others are empty.
\<close>

definition shown :: "'img net \<Rightarrow> cell list list \<Rightarrow> string list \<Rightarrow> nat \<Rightarrow> nat \<Rightarrow> 'img axis \<Rightarrow> bool" where
  "shown net url_arr titles i j axis =
     (plot_img net (None, None) (url_arr ! i ! j) (if j = 0 then Some (titles ! i) else None)
        = Inr axis)"

definition filled ::
  "'img net \<Rightarrow> cell list list \<Rightarrow> string list \<Rightarrow> nat \<Rightarrow> nat \<Rightarrow> nat \<Rightarrow> nat \<Rightarrow> 'img figure \<Rightarrow> bool" where
  "filled net url_arr titles nx ny i jn fig =
     (length fig = ny \<and>
      (\<forall>j<ny. length (fig ! j) = nx \<and>
         (\<forall>b<nx. if b < i \<or> (b = i \<and> j < jn)
                 then shown net url_arr titles b j (fig ! j ! b) \<and> (j = 0 \<longrightarrow> b < length titles)
                 else fig ! j ! b = (None, None))))"

subsection \<open>A small museum\<close>

text \<open>
  Concrete inputs on which the functions are run: a store of three entities, one per
  medium and per culture of the notebook, the two models fitted on it with an absolute
  distance, a table of one query entity, and a network that serves every string URL.
\<close>

definition demo_metric :: "real list \<Rightarrow> real list \<Rightarrow> real" where
  "demo_metric a b = sum_list (map2 (\<lambda>x y. \<bar>x - y\<bar>) a b)"

definition demo_store :: dataframe where
  "demo_store =
     \<lparr>columns = [''id'', ''Thumbnail_Url'', ''Classification'', ''Culture'', ''Norm_Features''],
      rows = [[StringC ''a1'', StringC ''u1'', StringC ''paintings'', StringC ''japanese'',
               VectorC [0]],
              [StringC ''a2'', StringC ''u2'', StringC ''glass'', StringC ''american'',
               VectorC [1]],
              [StringC ''a3'', StringC ''u3'', StringC ''ceramics'',
               StringC ''african (general)'', VectorC [3]]]\<rparr>"

definition demo_medium :: cknn where
  "demo_medium =
     \<lparr>outputCol = ''Matches'', featuresCol = ''Norm_Features'', valuesCol = ''Thumbnail_Url'',
      labelCol = ''Classification'', conditionerCol = ''conditioner'', k = 1,
      metric = demo_metric,
      ballTree = [\<lparr>features = [0], thumbnail = Some ''u1'', category = ''paintings''\<rparr>,
                  \<lparr>features = [1], thumbnail = Some ''u2'', category = ''glass''\<rparr>,
                  \<lparr>features = [3], thumbnail = Some ''u3'', category = ''ceramics''\<rparr>]\<rparr>"

definition demo_culture :: cknn where
  "demo_culture =
     \<lparr>outputCol = ''Matches'', featuresCol = ''Norm_Features'', valuesCol = ''Thumbnail_Url'',
      labelCol = ''Culture'', conditionerCol = ''conditioner'', k = 1,
      metric = demo_metric,
      ballTree = [\<lparr>features = [0], thumbnail = Some ''u1'', category = ''japanese''\<rparr>,
                  \<lparr>features = [1], thumbnail = Some ''u2'', category = ''american''\<rparr>,
                  \<lparr>features = [3], thumbnail = Some ''u3'',
                   category = ''african (general)''\<rparr>]\<rparr>"

definition demo_queries :: dataframe where
  "demo_queries =
     \<lparr>columns = [''id'', ''Thumbnail_Url'', ''Classification'', ''Culture'', ''Norm_Features''],
      rows = [[StringC ''a2'', StringC ''u2'', StringC ''glass'', StringC ''american'',
               VectorC [1]]]\<rparr>"

definition demo_net :: "string net" where
  "demo_net =
     \<lparr>requests_get = (\<lambda>url. case url of StringC u \<Rightarrow> Inr (''jpeg:'' @ u)
                                      | _ \<Rightarrow> Inl RequestException),
      image_open = (\<lambda>content. if take 5 content = ''jpeg:'' then Inr (drop 5 content)
                               else Inl UnidentifiedImageError)\<rparr>"

text \<open>The query table after an earlier pass: it has a \<open>conditioner\<close> column already.\<close>

definition demo_conditioned :: dataframe where
  "demo_conditioned =
     \<lparr>columns = [''id'', ''Thumbnail_Url'', ''Classification'', ''Culture'', ''Norm_Features'',
                 ''conditioner''],
      rows = [[StringC ''a2'', StringC ''u2'', StringC ''glass'', StringC ''american'',
               VectorC [1], ArrayC [''ceramics'']]]\<rparr>"

text \<open>
  A culture index without a Japanese entity, and the table a complete run returns for
  the query entity \<open>a2\<close>.
\<close>

definition demo_american :: cknn where
  "demo_american =
     demo_culture\<lparr>ballTree := [\<lparr>features = [1], thumbnail = Some ''u2'',
                                  category = ''american''\<rparr>]\<rparr>"

definition demo_results :: dataframe where
  "demo_results =
     \<lparr>columns = [''id'', ''Thumbnail_Url'', ''Classification'', ''Culture'', ''Norm_Features'',
                 ''conditioner'', ''Matches_paintings'', ''Matches_glass'',
                 ''Matches_ceramics'', ''Matches_japanese'', ''Matches_american'',
                 ''Matches_african (general)''],
      rows = [[StringC ''a2'', StringC ''u2'', StringC ''glass'', StringC ''american'',
               VectorC [1], ArrayC [''african (general)''],
               MatchesC [\<lparr>value_of = Some ''u1'', distance_of = 1,
                          label_of = ''paintings''\<rparr>],
               MatchesC [\<lparr>value_of = Some ''u2'', distance_of = 0, label_of = ''glass''\<rparr>],
               MatchesC [\<lparr>value_of = Some ''u3'', distance_of = 2,
                          label_of = ''ceramics''\<rparr>],
               MatchesC [\<lparr>value_of = Some ''u1'', distance_of = 1,
                          label_of = ''japanese''\<rparr>],
               MatchesC [\<lparr>value_of = Some ''u2'', distance_of = 0,
                          label_of = ''american''\<rparr>],
               MatchesC [\<lparr>value_of = Some ''u3'', distance_of = 2,
                          label_of = ''african (general)''\<rparr>]]]\<rparr>"

text \<open>A grid of URLs: the originals of two query entities and their matches for two labels.\<close>

definition demo_urls :: "cell list list" where
  "demo_urls =
     [[StringC ''a'', StringC ''b''], [StringC ''c'', StringC ''d''],
      [StringC ''e'', StringC ''f'']]"




text \<open>A grid of URLs in which one original has no thumbnail reference.\<close>

definition demo_broken :: "cell list list" where
  "demo_broken = [[StringC ''a'', NullC], [StringC ''c'', StringC ''d'']]"

text \<open>
  A table of one query entity that already has a column \<open>Conditioner\<close>, written with a
  capital, holding a string.
\<close>

definition demo_capital :: dataframe where
  "demo_capital =
     \<lparr>columns = [''id'', ''Thumbnail_Url'', ''Classification'', ''Culture'', ''Norm_Features'',
                 ''Conditioner''],
      rows = [[StringC ''a2'', StringC ''u2'', StringC ''glass'', StringC ''american'',
               VectorC [1], StringC ''x'']]\<rparr>"

section \<open>Properties\<close>

subsection \<open>Tables and column names\<close>

lemma for_list_map:
  "(\<And>x. x \<in> set xs \<Longrightarrow> f x = Inr (g x)) \<Longrightarrow> for_list f xs = Inr (map g xs)"
  by (induction xs) auto

lemma same_name_refl [simp]: "same_name a a"
  by (simp add: same_name_def)

lemma same_name_sym: "same_name a b \<Longrightarrow> same_name b a"
  by (simp add: same_name_def)

lemma same_name_trans: "same_name a b \<Longrightarrow> same_name b c \<Longrightarrow> same_name a c"
  by (simp add: same_name_def)

lemma same_name_length: "same_name a b \<Longrightarrow> length a = length b"
  unfolding same_name_def by (metis length_map)

lemma reserved_names [simp]:
  "\<not> same_name ''conditioner'' ''Matches''" "\<not> same_name ''Matches'' ''conditioner''"
  "\<not> same_name ''conditioner'' ''Norm_Features''" "\<not> same_name ''Norm_Features'' ''conditioner''"
  "\<not> same_name ''Matches'' ''Norm_Features''" "\<not> same_name ''Norm_Features'' ''Matches''"
  by (simp_all add: same_name_def)

lemma match_column_other [simp]:
  "\<not> same_name (match_column l) ''conditioner''" "\<not> same_name (match_column l) ''Matches''"
  "\<not> same_name (match_column l) ''Norm_Features''"
  by (simp_all add: same_name_def match_column_def lower_def)

lemma named_append [simp]: "named (a @ b) n = named a n @ named b n"
  by (simp add: named_def)

lemma named_Cons: "named (c # cs) n = (if same_name c n then c # named cs n else named cs n)"
  by (simp add: named_def)

lemma named_Nil [simp]: "named [] n = []"
  by (simp add: named_def)

lemma named_empty: "named cs n = [] \<longleftrightarrow> (\<forall>c\<in>set cs. \<not> same_name c n)"
  by (simp add: named_def filter_empty_conv)

lemma named_match_columns [simp]:
  "named (map match_column ls) ''conditioner'' = []"
  "named (map match_column ls) ''Matches'' = []"
  "named (map match_column ls) ''Norm_Features'' = []"
  by (simp_all add: named_empty)

lemma position_le: "position cs n \<le> length cs"
  by (induction cs) auto

lemma position_less: "named cs n \<noteq> [] \<Longrightarrow> position cs n < length cs"
  by (induction cs) (auto simp: named_Cons split: if_splits)

lemma position_absent: "named cs n = [] \<Longrightarrow> position cs n = length cs"
  by (induction cs) (auto simp: named_Cons split: if_splits)

lemma position_named: "named cs n \<noteq> [] \<Longrightarrow> same_name (cs ! position cs n) n"
  by (induction cs) (auto simp: named_Cons split: if_splits)

lemma position_append:
  "position (a @ b) n = (if named a n \<noteq> [] then position a n else length a + position b n)"
  by (induction a) (auto simp: named_Cons)

lemma named_set_name_other:
  assumes "\<not> same_name c n"
  shows "named (set_name cs c) n = named cs n"
proof -
  have r: "same_name (if same_name x c then c else x) n \<longleftrightarrow> same_name x n" for x
    using assms by (auto simp: same_name_def)
  have "filter (\<lambda>x. same_name x n) (map (\<lambda>x. if same_name x c then c else x) cs) =
          filter (\<lambda>x. same_name x n) cs"
  proof (induction cs)
    case Nil
    then show ?case by simp
  next
    case (Cons x xs)
    have "\<not> (same_name x c \<and> same_name x n)"
      using assms by (auto simp: same_name_def)
    then show ?case
      using Cons assms by (cases "same_name x c") auto
  qed
  then show ?thesis
    using assms by (simp add: set_name_def named_def)
qed

lemma position_set_name_other:
  assumes "\<not> same_name c n"
  shows "position (set_name cs c) n = position cs n + (if named cs c = [] \<and> named cs n = [] then 1 else 0)"
proof -
  have r: "same_name (if same_name x c then c else x) n \<longleftrightarrow> same_name x n" for x
    using assms by (auto simp: same_name_def)
  have m: "position (map (\<lambda>x. if same_name x c then c else x) cs) n = position cs n"
    by (induction cs) (simp_all add: r)
  show ?thesis
  proof (cases "named cs c = []")
    case True
    then show ?thesis
      using assms by (auto simp: set_name_def position_append position_absent)
  next
    case False
    then show ?thesis
      using m by (simp add: set_name_def)
  qed
qed

lemma named_set_name_same:
  "length (named (set_name cs c) c) = (if named cs c = [] then 1 else length (named cs c))"
proof -
  have "length (filter (\<lambda>x. same_name x c) (map (\<lambda>x. if same_name x c then c else x) cs)) =
          length (filter (\<lambda>x. same_name x c) cs)"
    by (induction cs) simp_all
  then show ?thesis
    by (simp add: set_name_def named_def)
qed

lemma position_set_name_same: "position (set_name cs c) c = position cs c"
proof -
  have "position (map (\<lambda>x. if same_name x c then c else x) cs) c = position cs c"
    by (induction cs) simp_all
  then show ?thesis
    by (simp add: set_name_def position_append position_absent)
qed

lemma length_set_name:
  "length (set_name cs c) = (if named cs c = [] then Suc (length cs) else length cs)"
  by (simp add: set_name_def)

lemma length_set_cell:
  "length r = length cs \<Longrightarrow> length (set_cell cs c v r) = length (set_name cs c)"
  by (simp add: set_cell_def set_name_def)

lemma map2_other:
  "named cs n = [] \<Longrightarrow> map2 (\<lambda>c x. if same_name c n then v else x) cs r = take (length cs) r"
proof (induction cs arbitrary: r)
  case Nil
  then show ?case by simp
next
  case (Cons c cs)
  then show ?case by (cases r) (auto simp: named_Cons split: if_splits)
qed

lemma set_cell_again:
  assumes "length r = length cs"
  shows "map2 (\<lambda>c x. if same_name c n then v else x) (set_name cs n) (set_cell cs n v0 r) =
           set_cell cs n v r"
proof (cases "named cs n = []")
  case True
  then show ?thesis
    using assms by (simp add: set_name_def set_cell_def map2_other)
next
  case False
  have "map2 (\<lambda>c x. if same_name c n then v else x) (map (\<lambda>c. if same_name c n then n else c) cs)
          (map2 (\<lambda>c x. if same_name c n then v0 else x) cs r) =
        map2 (\<lambda>c x. if same_name c n then v else x) cs r"
    using assms
  proof (induction cs arbitrary: r)
    case Nil
    then show ?case by simp
  next
    case (Cons c cs)
    then show ?case by (cases r) auto
  qed
  then show ?thesis
    using False by (simp add: set_name_def set_cell_def)
qed

lemma set_name_again:
  "map (\<lambda>c. if same_name c n then n else c) (set_name cs n) = set_name cs n"
proof (cases "named cs n = []")
  case True
  then have "map (\<lambda>c. if same_name c n then n else c) cs = cs"
    by (intro map_idI) (auto simp: named_empty)
  then show ?thesis
    using True by (simp add: set_name_def)
next
  case False
  then show ?thesis
    by (simp add: set_name_def)
qed

lemma nth_cell_set_cell:
  assumes "length r = length cs" and "p < length cs" and "\<not> same_name (cs ! p) c"
  shows "nth_cell (set_cell cs c v r) p = nth_cell r p"
  using assms by (auto simp: nth_cell_def set_cell_def nth_append)

lemma nth_cell_set_cell_same:
  assumes "length r = length cs"
  shows "nth_cell (set_cell cs c v r) (position cs c) = v"
proof (cases "named cs c = []")
  case True
  then show ?thesis
    using assms [symmetric] by (simp add: set_cell_def position_absent nth_cell_def)
next
  case False
  then show ?thesis
    using assms position_less [OF False] position_named [OF False]
    by (simp add: set_cell_def nth_cell_def)
qed

lemma withColumn_array_lit:
  "withColumn c (array_lit l) df =
     Inr \<lparr>columns = set_name (columns df) c,
          rows = map (set_cell (columns df) c (ArrayC [l])) (rows df)\<rparr>"
  unfolding withColumn_def
  by (subst for_list_map [where g = "set_cell (columns df) c (ArrayC [l])"])
     (simp_all add: array_lit_def)

lemma for_list_map_map:
  "(\<And>x. x \<in> set xs \<Longrightarrow> f (h x) = Inr (g x)) \<Longrightarrow> for_list f (map h xs) = Inr (map g xs)"
  by (induction xs) auto

lemma nth_cell_append: "i < length a \<Longrightarrow> nth_cell (a @ b) i = nth_cell a i"
  by (simp add: nth_cell_def nth_append)

lemma rename_other: "named cs n = [] \<Longrightarrow> map (\<lambda>c. if same_name c n then n' else c) cs = cs"
  by (intro map_idI) (auto simp: named_empty)

subsection \<open>One pass of the loop on a table of query entities\<close>

lemma extended_Nil: "withColumn ''conditioner'' (array_lit l) df = Inr (extended m df l [])"
  by (simp add: withColumn_array_lit extended_def extended_row_def)

lemma query_table_facts:
  assumes "notebook_model m" and "query_table m df"
  shows "well_formed df" and "length (named (columns df) ''Norm_Features'') = 1"
    and "length (named (columns df) ''conditioner'') \<le> 1"
    and "named (columns df) ''Matches'' = []"
    and "\<And>r. r \<in> set (rows df) \<Longrightarrow> length r = length (columns df)"
    and "\<And>r. r \<in> set (rows df) \<Longrightarrow>
           \<exists>v. nth_cell r (position (columns df) ''Norm_Features'') = VectorC v \<and>
               embedding m df r = Some v"
proof -
  have f: "featuresCol m = ''Norm_Features''"
    using assms(1) by (simp add: notebook_model_def)
  show "well_formed df" "length (named (columns df) ''Norm_Features'') = 1"
    "length (named (columns df) ''conditioner'') \<le> 1" "named (columns df) ''Matches'' = []"
    using assms(2) f by (simp_all add: query_table_def)
  show "length r = length (columns df)" if "r \<in> set (rows df)" for r
    using assms(2) that by (simp add: query_table_def well_formed_def list_all_iff)
  show "\<exists>v. nth_cell r (position (columns df) ''Norm_Features'') = VectorC v \<and>
               embedding m df r = Some v" if "r \<in> set (rows df)" for r
  proof -
    have "embedding m df r \<noteq> None"
      using assms(2) that by (simp add: query_table_def list_all_iff)
    then show ?thesis
      by (cases "nth_cell r (position (columns df) ''Norm_Features'')")
         (simp_all add: embedding_def f)
  qed
qed

lemma extended_conditioner:
  assumes "notebook_model m" and "query_table m df"
  shows "withColumn ''conditioner'' (array_lit l) (extended m df l0 seen) =
           Inr (extended m df l seen)"
proof -
  let ?A = "set_name (columns df) ''conditioner''"
  let ?B = "map match_column seen"
  have ne: "named (?A @ ?B) ''conditioner'' \<noteq> []"
    using named_set_name_same [of "columns df" "''conditioner''"]
    by (auto split: if_splits)
  have cols: "set_name (?A @ ?B) ''conditioner'' = ?A @ ?B"
    using ne by (simp add: set_name_def set_name_again rename_other del: named_append)
  have "set_cell (?A @ ?B) ''conditioner'' (ArrayC [l]) (extended_row m df l0 seen r) =
          extended_row m df l seen r" if "r \<in> set (rows df)" for r
  proof -
    have len: "length r = length (columns df)"
      using query_table_facts(5) [OF assms that] .
    have "map2 (\<lambda>c x. if same_name c ''conditioner'' then ArrayC [l] else x) (?A @ ?B)
            (set_cell (columns df) ''conditioner'' (ArrayC [l0]) r @
             map (\<lambda>l. MatchesC (query m (the (embedding m df r)) [l])) seen) =
          set_cell (columns df) ''conditioner'' (ArrayC [l]) r @
             map (\<lambda>l. MatchesC (query m (the (embedding m df r)) [l])) seen"
      using len by (simp add: length_set_cell set_cell_again map2_other)
    then show ?thesis
      using ne by (simp add: set_cell_def [of "?A @ ?B"] extended_row_def del: named_append)
  qed
  then show ?thesis
    by (simp add: withColumn_array_lit extended_def cols del: named_append)
qed

lemma transform_extended:
  assumes nm: "notebook_model m" and qt: "query_table m df"
  shows "transform m (extended m df l seen) =
           (Inr \<lparr>columns = columns (extended m df l seen) @ [''Matches''],
                 rows = map (\<lambda>r. extended_row m df l seen r
                                   @ [MatchesC (query m (the (embedding m df r)) [l])])
                          (rows df)\<rparr>, m)"
proof -
  let ?cs = "columns df"
  let ?A = "set_name ?cs ''conditioner''"
  let ?B = "map match_column seen"
  let ?fi = "position ?cs ''Norm_Features''"
  let ?ci = "position ?cs ''conditioner''"
  have f: "featuresCol m = ''Norm_Features''" and o: "outputCol m = ''Matches''"
    and cc: "conditionerCol m = ''conditioner''"
    using nm by (simp_all add: notebook_model_def)
  note q = query_table_facts [OF nm qt]
  have fne: "named ?cs ''Norm_Features'' \<noteq> []"
    using q(2) by auto
  have fA: "named ?A ''Norm_Features'' = named ?cs ''Norm_Features''"
    by (simp add: named_set_name_other)
  have r1: "resolve (columns (extended m df l seen)) ''Norm_Features'' = Inr ?fi"
    using q(2) fne by (simp add: resolve_def extended_def fA position_append
                          position_set_name_other)
  have cA: "length (named ?A ''conditioner'') = 1"
    using q(3) by (cases "named ?cs ''conditioner''") (simp_all add: named_set_name_same)
  then have cne: "named ?A ''conditioner'' \<noteq> []"
    by auto
  have r2: "resolve (columns (extended m df l seen)) ''conditioner'' = Inr ?ci"
    using cA cne by (simp add: resolve_def extended_def position_append position_set_name_same)
  have row: "transform_row m ?fi ?ci (extended_row m df l seen r) =
               Inr (MatchesC (query m (the (embedding m df r)) [l]))"
    if rin: "r \<in> set (rows df)" for r
  proof -
    have len: "length r = length ?cs"
      using q(5) [OF rin] .
    obtain v where v: "nth_cell r ?fi = VectorC v" and e: "embedding m df r = Some v"
      using q(6) [OF rin] by blast
    have lt: "?fi < length ?cs"
      using fne by (rule position_less)
    have nc: "\<not> same_name (?cs ! ?fi) ''conditioner''"
      using position_named [OF fne] by (auto simp: same_name_def)
    have lenA: "length (set_cell ?cs ''conditioner'' (ArrayC [l]) r) = length ?A"
      using len by (rule length_set_cell)
    have "?fi < length ?A"
      using lt by (simp add: length_set_name)
    then have "nth_cell (extended_row m df l seen r) ?fi = VectorC v"
      using v lt nc len by (simp add: extended_row_def nth_cell_append lenA nth_cell_set_cell)
    moreover have "?ci < length ?A"
      using position_le [of ?cs "''conditioner''"] position_less [of ?cs "''conditioner''"]
      by (cases "named ?cs ''conditioner'' = []") (simp_all add: length_set_name)
    then have "nth_cell (extended_row m df l seen r) ?ci = ArrayC [l]"
      using len by (simp add: extended_row_def nth_cell_append lenA nth_cell_set_cell_same)
    ultimately show ?thesis
      using e by (simp add: transform_row_def)
  qed
  have nin: "named (columns (extended m df l seen)) ''Matches'' = []"
    using q(4) by (simp add: extended_def named_set_name_other)
  have "withColumn ''Matches'' (transform_row m ?fi ?ci) (extended m df l seen) =
          Inr \<lparr>columns = columns (extended m df l seen) @ [''Matches''],
               rows = map (\<lambda>r. extended_row m df l seen r
                                 @ [MatchesC (query m (the (embedding m df r)) [l])])
                        (rows df)\<rparr>"
  proof -
    have "for_list (\<lambda>r'. case transform_row m ?fi ?ci r' of Inl e \<Rightarrow> Inl e
             | Inr v \<Rightarrow> Inr (set_cell (columns (extended m df l seen)) ''Matches'' v r'))
            (map (extended_row m df l seen) (rows df)) =
          Inr (map (\<lambda>r. extended_row m df l seen r
                           @ [MatchesC (query m (the (embedding m df r)) [l])]) (rows df))"
    proof (rule for_list_map_map)
      fix r assume "r \<in> set (rows df)"
      then show "(case transform_row m ?fi ?ci (extended_row m df l seen r) of Inl e \<Rightarrow> Inl e
             | Inr v \<Rightarrow> Inr (set_cell (columns (extended m df l seen)) ''Matches'' v
                            (extended_row m df l seen r))) =
            Inr (extended_row m df l seen r @ [MatchesC (query m (the (embedding m df r)) [l])])"
        using row nin by (simp add: set_cell_def)
    qed
    moreover have "rows (extended m df l seen) = map (extended_row m df l seen) (rows df)"
      by (simp add: extended_def)
    moreover have "set_name (columns (extended m df l seen)) ''Matches'' =
                     columns (extended m df l seen) @ [''Matches'']"
      using nin by (simp add: set_name_def [of "columns (extended m df l seen)"])
    ultimately show ?thesis
      by (simp only: withColumn_def sum.case)
  qed
  then show ?thesis
    by (simp add: transform_def r1 r2 f o cc)
qed

lemma rename_extended:
  assumes "notebook_model m" and "query_table m df"
  shows "withColumnRenamed ''Matches'' (match_column l)
           \<lparr>columns = columns (extended m df l seen) @ [''Matches''],
            rows = map (\<lambda>r. extended_row m df l seen r
                              @ [MatchesC (query m (the (embedding m df r)) [l])]) (rows df)\<rparr>
         = extended m df l (seen @ [l])"
proof -
  have "named (set_name (columns df) ''conditioner'') ''Matches'' = []"
    using query_table_facts(4) [OF assms] by (simp add: named_set_name_other)
  then show ?thesis
    by (simp add: withColumnRenamed_def extended_def extended_row_def rename_other)
qed

lemma add_matches_step:
  assumes "notebook_model m" and "query_table m df"
  shows "add_matches transform (l # ls) m (extended m df l0 seen) =
         add_matches transform ls m (extended m df l (seen @ [l]))"
  using assms
  by (simp add: extended_conditioner transform_extended rename_extended)

lemma add_matches_first:
  assumes "notebook_model m" and "query_table m df"
  shows "add_matches transform (l # ls) m df = add_matches transform ls m (extended m df l [l])"
  using assms rename_extended [OF assms, of l "[]"]
  by (simp add: extended_Nil [of l df m] transform_extended)

lemma add_matches_extended:
  assumes "notebook_model m" and "query_table m df"
  shows "add_matches transform ls m (extended m df l0 seen) =
           (Inr (extended m df (last (l0 # ls)) (seen @ ls)), m)"
  using assms
proof (induction ls arbitrary: l0 seen)
  case Nil
  then show ?case by simp
next
  case (Cons l ls)
  then show ?case
    by (simp only: add_matches_step) simp
qed

lemma add_matches_table:
  assumes "notebook_model m" and "query_table m df" and "classes \<noteq> []"
  shows "add_matches transform classes m df = (Inr (extended m df (last classes) classes), m)"
proof -
  obtain l ls where cl: "classes = l # ls"
    using assms(3) by (cases classes) auto
  show ?thesis
    using assms(1,2) unfolding cl
    by (simp only: add_matches_first add_matches_extended) simp
qed

subsection \<open>Running the functions on concrete tables\<close>

text \<open>
  How \<open>lower\<close> acts on the characters of the names used below, and the equations a
  run of a pass on a concrete table is computed with.
\<close>

lemma lower_simps:
  "lower CHR ''A'' = CHR ''a''" "lower CHR ''B'' = CHR ''b''" "lower CHR ''C'' = CHR ''c''"
  "lower CHR ''D'' = CHR ''d''" "lower CHR ''E'' = CHR ''e''" "lower CHR ''F'' = CHR ''f''"
  "lower CHR ''G'' = CHR ''g''" "lower CHR ''H'' = CHR ''h''" "lower CHR ''I'' = CHR ''i''"
  "lower CHR ''J'' = CHR ''j''" "lower CHR ''K'' = CHR ''k''" "lower CHR ''L'' = CHR ''l''"
  "lower CHR ''M'' = CHR ''m''" "lower CHR ''N'' = CHR ''n''" "lower CHR ''O'' = CHR ''o''"
  "lower CHR ''P'' = CHR ''p''" "lower CHR ''Q'' = CHR ''q''" "lower CHR ''R'' = CHR ''r''"
  "lower CHR ''S'' = CHR ''s''" "lower CHR ''T'' = CHR ''t''" "lower CHR ''U'' = CHR ''u''"
  "lower CHR ''V'' = CHR ''v''" "lower CHR ''W'' = CHR ''w''" "lower CHR ''X'' = CHR ''x''"
  "lower CHR ''Y'' = CHR ''y''" "lower CHR ''Z'' = CHR ''z''" "lower CHR ''a'' = CHR ''a''"
  "lower CHR ''b'' = CHR ''b''" "lower CHR ''c'' = CHR ''c''" "lower CHR ''d'' = CHR ''d''"
  "lower CHR ''e'' = CHR ''e''" "lower CHR ''f'' = CHR ''f''" "lower CHR ''g'' = CHR ''g''"
  "lower CHR ''h'' = CHR ''h''" "lower CHR ''i'' = CHR ''i''" "lower CHR ''j'' = CHR ''j''"
  "lower CHR ''k'' = CHR ''k''" "lower CHR ''l'' = CHR ''l''" "lower CHR ''m'' = CHR ''m''"
  "lower CHR ''n'' = CHR ''n''" "lower CHR ''o'' = CHR ''o''" "lower CHR ''p'' = CHR ''p''"
  "lower CHR ''q'' = CHR ''q''" "lower CHR ''r'' = CHR ''r''" "lower CHR ''s'' = CHR ''s''"
  "lower CHR ''t'' = CHR ''t''" "lower CHR ''u'' = CHR ''u''" "lower CHR ''v'' = CHR ''v''"
  "lower CHR ''w'' = CHR ''w''" "lower CHR ''x'' = CHR ''x''" "lower CHR ''y'' = CHR ''y''"
  "lower CHR ''z'' = CHR ''z''" "lower CHR ''0'' = CHR ''0''" "lower CHR ''1'' = CHR ''1''"
  "lower CHR ''2'' = CHR ''2''" "lower CHR ''3'' = CHR ''3''" "lower CHR ''4'' = CHR ''4''"
  "lower CHR ''5'' = CHR ''5''" "lower CHR ''6'' = CHR ''6''" "lower CHR ''7'' = CHR ''7''"
  "lower CHR ''8'' = CHR ''8''" "lower CHR ''9'' = CHR ''9''" "lower CHR ''_'' = CHR ''_''"
  "lower CHR '' '' = CHR '' ''" "lower CHR ''('' = CHR ''(''" "lower CHR '')'' = CHR '')''"
  "lower CHR ''-'' = CHR ''-''" "lower CHR ''.'' = CHR ''.''" "lower CHR ''/'' = CHR ''/''"
  by (simp_all add: lower_def)

lemmas name_defs = same_name_def lower_simps named_def set_name_def

lemmas table_defs = withColumn_def withColumnRenamed_def set_cell_def array_lit_def resolve_def
  nth_cell_def transform_def transform_row_def query_def to_match_def match_column_def name_defs

lemma demo_medium_ok: "notebook_model demo_medium \<and> query_table demo_medium demo_queries"
  by (simp add: notebook_model_def query_table_def well_formed_def embedding_def nth_cell_def
        demo_medium_def demo_queries_def name_defs)

lemma demo_capital_ok: "query_table demo_medium demo_capital"
  by (simp add: notebook_model_def query_table_def well_formed_def embedding_def nth_cell_def
        demo_medium_def demo_capital_def name_defs)

subsection \<open>The columns the orchestrator adds\<close>

text \<open>
  Claim C1. For every sequence of n label conditions and every input table,
  \<open>add_matches\<close> returns the table extended with exactly n new match columns, one per
  condition, named for it, in input order, each holding per row the match result of
  that row's embedding, rows kept, and no other column added.

  The code adds one more column: the loop writes the condition into a column
  \<open>conditioner\<close> for the model to read, and never drops it. With one condition, the
  table of one query entity below, which has five columns, comes back with seven.
\<close>

theorem add_matches_keeps_conditioner:
  "fst (add_matches transform [''glass''] demo_medium demo_queries) =
     Inr \<lparr>columns = [''id'', ''Thumbnail_Url'', ''Classification'', ''Culture'',
                     ''Norm_Features'', ''conditioner'', ''Matches_glass''],
          rows = [[StringC ''a2'', StringC ''u2'', StringC ''glass'', StringC ''american'',
                   VectorC [1], ArrayC [''glass''],
                   MatchesC [\<lparr>value_of = Some ''u2'', distance_of = 0,
                              label_of = ''glass''\<rparr>]]]\<rparr>"
  by (simp add: demo_medium_def demo_queries_def demo_metric_def table_defs)

text \<open>
  Claim C1, as the code has it. Column names are compared as Spark compares them,
  without regard to case. On a table of query entities (their own fields, an embedding
  in every row, at most one column named \<open>conditioner\<close>, none named \<open>Matches\<close>: the
  input of the first call of \<open>test_all\<close> and the input of its second call) and a model
  with the notebook's column parameters, \<open>add_matches\<close> returns the input table when
  there is no condition. Otherwise the returned table has the columns of the input,
  with the column \<open>conditioner\<close> holding the last condition in every row (the input's
  column of that name is overwritten where it stands and takes the name
  \<open>conditioner\<close>; when the input has none, the column is appended), and after them
  one column \<open>Matches_<condition>\<close> per condition, in input order, each holding per row
  the match result of the row's embedding under that condition. The rows are those of
  the input, in their order, and nothing else is added; the model is returned as it
  was.
\<close>

theorem add_matches_extends_table:
  assumes "notebook_model m" and "query_table m df"
  shows "add_matches transform classes m df =
           (Inr (if classes = [] then df
                 else \<lparr>columns = set_name (columns df) ''conditioner'' @
                                   map match_column classes,
                       rows = map (\<lambda>r. set_cell (columns df) ''conditioner''
                                           (ArrayC [last classes]) r @
                                     map (\<lambda>l. MatchesC (query m (the (embedding m df r)) [l]))
                                       classes) (rows df)\<rparr>), m)"
proof (cases "classes = []")
  case True
  then show ?thesis by simp
next
  case False
  then show ?thesis
    using add_matches_table [OF assms False]
    by (simp add: extended_def extended_row_def)
qed

text \<open>
  The statement at work on the table with a column \<open>Conditioner\<close> and the three
  mediums of the notebook: the column is overwritten and renamed, three match columns
  follow.
\<close>

theorem add_matches_extends_table_witness:
  "notebook_model demo_medium \<and> query_table demo_medium demo_capital \<and>
   add_matches transform mediums demo_medium demo_capital =
     (Inr \<lparr>columns = [''id'', ''Thumbnail_Url'', ''Classification'', ''Culture'',
                      ''Norm_Features'', ''conditioner'',
                      ''Matches_paintings'', ''Matches_glass'', ''Matches_ceramics''],
           rows = [[StringC ''a2'', StringC ''u2'', StringC ''glass'', StringC ''american'',
                    VectorC [1], ArrayC [''ceramics''],
                    MatchesC [\<lparr>value_of = Some ''u1'', distance_of = 1,
                               label_of = ''paintings''\<rparr>],
                    MatchesC [\<lparr>value_of = Some ''u2'', distance_of = 0,
                               label_of = ''glass''\<rparr>],
                    MatchesC [\<lparr>value_of = Some ''u3'', distance_of = 2,
                               label_of = ''ceramics''\<rparr>]]]\<rparr>, demo_medium)"
proof -
  have ok: "notebook_model demo_medium" "query_table demo_medium demo_capital"
    using demo_medium_ok demo_capital_ok by simp_all
  have "add_matches transform mediums demo_medium demo_capital =
          (Inr \<lparr>columns = set_name (columns demo_capital) ''conditioner'' @
                            map match_column mediums,
                rows = map (\<lambda>r. set_cell (columns demo_capital) ''conditioner''
                                    (ArrayC [last mediums]) r @
                              map (\<lambda>l. MatchesC (query demo_medium
                                    (the (embedding demo_medium demo_capital r)) [l]))
                                mediums) (rows demo_capital)\<rparr>, demo_medium)"
    using add_matches_extends_table [OF ok, of mediums] by (simp add: mediums_def)
  then show ?thesis
    using ok
    by (simp add: mediums_def demo_capital_def demo_medium_def demo_metric_def embedding_def
          query_def to_match_def nth_cell_def match_column_def set_cell_def name_defs)
qed

subsection \<open>No condition, no request\<close>

text \<open>
  Claim C10. \<open>add_matches\<close> with an empty condition sequence is the identity: for every
  input table and every index it returns the input table unchanged and issues no match
  request. The model's \<open>transform\<close> is the only way to the index; whatever it does
  (count its calls, fail, change the model), the result does not depend on it and the
  model object is as it was.
\<close>

theorem add_matches_no_conditions:
  "add_matches tr [] cknn df = (Inr df, cknn)"
  by simp

subsection \<open>What a pass leaves as it was\<close>



lemma for_list_all2: "for_list f xs = Inr ys \<Longrightarrow> list_all2 (\<lambda>x y. f x = Inr y) xs ys"
  by (induction xs arbitrary: ys) (auto split: sum.splits)













subsection \<open>The match columns, read by name\<close>

lemma index_less: "x \<in> set a \<Longrightarrow> index a x < length a"
  by (induction a) auto

lemma index_append_notin: "x \<notin> set a \<Longrightarrow> index (a @ b) x = length a + index b x"
  by (induction a) auto

lemma match_column_inj [simp]: "match_column a = match_column b \<longleftrightarrow> a = b"
  by (simp add: match_column_def)

lemma index_match_column: "index (map match_column xs) (match_column x) = index xs x"
  by (induction xs) auto

lemma nth_index: "x \<in> set xs \<Longrightarrow> xs ! index xs x = x"
  by (induction xs) auto

lemma set_set_name: "set (set_name cs c) \<subseteq> insert c (set cs)"
  by (auto simp: set_name_def)

lemma getitem_extended:
  assumes "l \<in> set seen" and "match_column l \<notin> set (columns df)"
    and "length r = length (columns df)"
  shows "getitem (columns (extended m df l0 seen), extended_row m df l0 seen r) (match_column l)
           = Inr (MatchesC (query m (the (embedding m df r)) [l]))"
proof -
  let ?A = "set_name (columns df) ''conditioner''"
  have "match_column l \<noteq> ''conditioner''"
    by (simp add: match_column_def)
  then have nin: "match_column l \<notin> set ?A"
    using assms(2) set_set_name [of "columns df" "''conditioner''"] by auto
  have i: "index (columns (extended m df l0 seen)) (match_column l) =
             length ?A + index seen l"
    using nin by (simp add: extended_def index_append_notin index_match_column)
  have lt: "index seen l < length seen"
    using assms(1) by (rule index_less)
  have len: "length (set_cell (columns df) ''conditioner'' (ArrayC [l0]) r) = length ?A"
    using assms(3) by (rule length_set_cell)
  have "nth_cell (extended_row m df l0 seen r) (length ?A + index seen l) =
          MatchesC (query m (the (embedding m df r)) [l])"
    using assms(1) lt len by (simp add: nth_cell_def extended_row_def nth_append nth_index)
  then show ?thesis
    using assms(1) i by (simp add: getitem_def extended_def)
qed


lemma query_no_entity: "l \<notin> category ` set (ballTree m) \<Longrightarrow> query m v [l] = []"
proof -
  assume "l \<notin> category ` set (ballTree m)"
  then have "filter (\<lambda>e. category e \<in> set [l]) (ballTree m) = []"
    by (auto simp: filter_empty_conv)
  then show ?thesis
    by (simp add: query_def)
qed

lemma for_list_set:
  "for_list f xs = Inr ys \<Longrightarrow> y \<in> set ys \<Longrightarrow> \<exists>x\<in>set xs. f x = Inr y"
  by (induction xs arbitrary: ys) (auto split: sum.splits)

lemma fit_model:
  assumes "fit est df = Inr m"
  shows "outputCol m = outputCol est" and "featuresCol m = featuresCol est"
    and "conditionerCol m = conditionerCol est" and "k m = k est"
    and "\<And>e. e \<in> set (ballTree m) \<Longrightarrow>
           \<exists>r\<in>set (rows df). nth_cell r (position (columns df) (labelCol est)) = StringC (category e)"
proof -
  obtain fi vi li es where li: "resolve (columns df) (labelCol est) = Inr li"
    and es: "for_list (to_entity fi vi li) (rows df) = Inr es" and m: "m = est\<lparr>ballTree := es\<rparr>"
    using assms by (auto simp: fit_def split: sum.splits)
  show "outputCol m = outputCol est" "featuresCol m = featuresCol est"
    "conditionerCol m = conditionerCol est" "k m = k est"
    by (simp_all add: m)
  fix e assume "e \<in> set (ballTree m)"
  then have "e \<in> set es" by (simp add: m)
  then obtain r where r: "r \<in> set (rows df)" and e: "to_entity fi vi li r = Inr e"
    using for_list_set [OF es] by blast
  have "li = position (columns df) (labelCol est)"
    using li by (auto simp: resolve_def split: if_splits)
  moreover have "nth_cell r li = StringC (category e)"
    using e by (auto simp: to_entity_def split: cell.splits)
  ultimately show "\<exists>r\<in>set (rows df). nth_cell r (position (columns df) (labelCol est)) = StringC (category e)"
    using r by blast
qed




lemma collect_extended:
  assumes "l \<in> set seen" and "match_column l \<notin> set (columns df)" and "well_formed df"
    and "\<And>r. P (MatchesC (query m (the (embedding m df r)) [l]))"
  shows "list_all (\<lambda>row. \<exists>c. getitem row (match_column l) = Inr c \<and> P c)
           (collect (extended m df l0 seen))"
proof -
  have "\<exists>c. getitem (columns (extended m df l0 seen), extended_row m df l0 seen r)
               (match_column l) = Inr c \<and> P c" if "r \<in> set (rows df)" for r
  proof -
    have "length r = length (columns df)"
      using assms(3) that by (simp add: well_formed_def list_all_iff)
    then show ?thesis
      using getitem_extended [OF assms(1,2), of r m l0] assms(4) by simp
  qed
  then show ?thesis
    by (simp add: collect_def list_all_iff extended_def)
qed

lemma demo_pass_ok: "notebook_model demo_culture \<and> query_table demo_culture demo_conditioned"
  by (simp add: notebook_model_def query_table_def well_formed_def embedding_def nth_cell_def
        demo_culture_def demo_conditioned_def name_defs)

lemma fit_demo_culture: "culture_cknn demo_metric 1 demo_store = Inr demo_culture"
  by (simp add: culture_cknn_def ConditionalKNN_def fit_def to_entity_def demo_store_def
        demo_culture_def resolve_def nth_cell_def name_defs)


text \<open>
  Claim C2. For every label condition of the condition sequence that matches zero
  entities of the entity store, every query row's match result for that condition is
  the empty sequence, the column is present, and the orchestration completes without
  raising. The entity store is the table the model was fitted on. The run returns the
  table \<open>extended\<close> describes, which has one row per row of the input, built from it;
  the column named for the condition is among its columns; and read as the notebook
  reads it, \<open>row["Matches_<condition>"]\<close>, it holds the empty list in every row. The
  input is a table of query entities, of the first call of \<open>test_all\<close> or of its
  second, that has no column of that name yet.
\<close>

theorem add_matches_no_entity:
  assumes "fit est store = Inr m" and "notebook_model m" and "query_table m df"
    and "l \<in> set classes" and "match_column l \<notin> set (columns df)"
    and "list_all (\<lambda>r. nth_cell r (position (columns store) (labelCol est)) \<noteq> StringC l)
           (rows store)"
  shows "\<exists>out'. out' = extended m df (last classes) classes \<and>
           add_matches transform classes m df = (Inr out', m) \<and>
           match_column l \<in> set (columns out') \<and>
           length (rows out') = length (rows df) \<and>
           list_all (\<lambda>row. getitem row (match_column l) = Inr (MatchesC [])) (collect out')"
proof -
  have "l \<notin> category ` set (ballTree m)"
    using fit_model(5) [OF assms(1)] assms(6) by (fastforce simp: list_all_iff)
  then have q: "query m v [l] = []" for v
    by (rule query_no_entity)
  have ne: "classes \<noteq> []"
    using assms(4) by auto
  have wf: "well_formed df"
    using assms(3) by (simp add: query_table_def)
  have "list_all (\<lambda>row. \<exists>c. getitem row (match_column l) = Inr c \<and> c = MatchesC [])
          (collect (extended m df (last classes) classes))"
    using assms(4,5) wf by (rule collect_extended) (simp add: q)
  moreover have "match_column l \<in> set (columns (extended m df (last classes) classes))"
    using assms(4) by (simp add: extended_def)
  moreover have "length (rows (extended m df (last classes) classes)) = length (rows df)"
    by (simp add: extended_def)
  ultimately show ?thesis
    using add_matches_table [OF assms(2,3) ne] by simp
qed

text \<open>
  The statement at work on the second call of \<open>test_all\<close>, with a culture no entity
  of the store has: the table returned, in full.
\<close>

theorem add_matches_no_entity_witness:
  "fit ((ConditionalKNN demo_metric 1)\<lparr>outputCol := ''Matches'',
          featuresCol := ''Norm_Features'', valuesCol := ''Thumbnail_Url'',
          labelCol := ''Culture''\<rparr>) demo_store = Inr demo_culture \<and>
   notebook_model demo_culture \<and> query_table demo_culture demo_conditioned \<and>
   ''french'' \<in> set [''american'', ''french''] \<and>
   match_column ''french'' \<notin> set (columns demo_conditioned) \<and>
   list_all (\<lambda>r. nth_cell r (position (columns demo_store) ''Culture'') \<noteq> StringC ''french'')
     (rows demo_store) \<and>
   (\<exists>out'. out' = extended demo_culture demo_conditioned ''french'' [''american'', ''french''] \<and>
      add_matches transform [''american'', ''french''] demo_culture demo_conditioned =
        (Inr out', demo_culture) \<and>
      match_column ''french'' \<in> set (columns out') \<and>
      length (rows out') = length (rows demo_conditioned) \<and>
      list_all (\<lambda>row. getitem row (match_column ''french'') = Inr (MatchesC []))
        (collect out')) \<and>
   extended demo_culture demo_conditioned ''french'' [''american'', ''french''] =
     \<lparr>columns = [''id'', ''Thumbnail_Url'', ''Classification'', ''Culture'',
                 ''Norm_Features'', ''conditioner'', ''Matches_american'', ''Matches_french''],
      rows = [[StringC ''a2'', StringC ''u2'', StringC ''glass'', StringC ''american'',
               VectorC [1], ArrayC [''french''],
               MatchesC [\<lparr>value_of = Some ''u2'', distance_of = 0,
                          label_of = ''american''\<rparr>],
               MatchesC []]]\<rparr>"
proof -
  let ?est = "(ConditionalKNN demo_metric 1)\<lparr>outputCol := ''Matches'',
                featuresCol := ''Norm_Features'', valuesCol := ''Thumbnail_Url'',
                labelCol := ''Culture''\<rparr>"
  have f: "fit ?est demo_store = Inr demo_culture"
    using fit_demo_culture by (simp add: culture_cknn_def)
  have ok: "notebook_model demo_culture" "query_table demo_culture demo_conditioned"
    using demo_pass_ok by simp_all
  have l: "''french'' \<in> set [''american'', ''french'']"
    by simp
  have c: "match_column ''french'' \<notin> set (columns demo_conditioned)"
    by (simp add: match_column_def demo_conditioned_def)
  have z: "list_all (\<lambda>r. nth_cell r (position (columns demo_store) (labelCol ?est)) \<noteq>
                      StringC ''french'') (rows demo_store)"
    by (simp add: demo_store_def nth_cell_def ConditionalKNN_def name_defs)
  have z': "list_all (\<lambda>r. nth_cell r (position (columns demo_store) ''Culture'') \<noteq>
                      StringC ''french'') (rows demo_store)"
    using z by (simp add: ConditionalKNN_def)
  have e: "extended demo_culture demo_conditioned ''french'' [''american'', ''french''] =
     \<lparr>columns = [''id'', ''Thumbnail_Url'', ''Classification'', ''Culture'',
                 ''Norm_Features'', ''conditioner'', ''Matches_american'', ''Matches_french''],
      rows = [[StringC ''a2'', StringC ''u2'', StringC ''glass'', StringC ''american'',
               VectorC [1], ArrayC [''french''],
               MatchesC [\<lparr>value_of = Some ''u2'', distance_of = 0,
                          label_of = ''american''\<rparr>],
               MatchesC []]]\<rparr>"
    by (simp add: extended_def extended_row_def demo_conditioned_def demo_culture_def
          demo_metric_def embedding_def query_def to_match_def nth_cell_def match_column_def
          set_cell_def name_defs)
  have "\<exists>out'. out' = extended demo_culture demo_conditioned ''french'' [''american'', ''french''] \<and>
      add_matches transform [''american'', ''french''] demo_culture demo_conditioned =
        (Inr out', demo_culture) \<and>
      match_column ''french'' \<in> set (columns out') \<and>
      length (rows out') = length (rows demo_conditioned) \<and>
      list_all (\<lambda>row. getitem row (match_column ''french'') = Inr (MatchesC []))
        (collect out')"
    using add_matches_no_entity [OF f ok l c z] by simp
  then show ?thesis
    using f ok l c z' e by blast
qed

subsection \<open>At most k matches per cell\<close>




subsection \<open>Loops that may raise\<close>

lemmas plot_defs = plot_urls_def plot_cell_def plot_img_def shape_def item2_def item_def
  subplots_def

lemma for_each_append:
  "for_each (xs @ ys) body s =
     (case for_each xs body s of Inl e \<Rightarrow> Inl e | Inr t \<Rightarrow> for_each ys body t)"
  by (induction xs arbitrary: s) (auto split: sum.splits)

lemma for_each_fails:
  "x \<in> set xs \<Longrightarrow> (\<And>s. isl (body x s)) \<Longrightarrow> isl (for_each xs body s)"
proof (induction xs arbitrary: s)
  case Nil
  then show ?case by simp
next
  case (Cons y ys)
  show ?case
  proof (cases "body y s")
    case (Inl e)
    then show ?thesis by simp
  next
    case (Inr t)
    have "x \<noteq> y"
      using Cons.prems(2) [of s] Inr by auto
    then show ?thesis
      using Cons Inr by simp
  qed
qed

lemma for_range_invariant:
  assumes "for_each [0..<n] body s = Inr s'" and "I 0 s"
    and "\<And>i t t'. i < n \<Longrightarrow> I i t \<Longrightarrow> body i t = Inr t' \<Longrightarrow> I (Suc i) t'"
  shows "I n s'"
  using assms
proof (induction n arbitrary: s')
  case 0
  then show ?case by simp
next
  case (Suc n)
  obtain t where t: "for_each [0..<n] body s = Inr t" and b: "body n t = Inr s'"
    using Suc.prems(1) by (auto simp: for_each_append split: sum.splits)
  have "I n t"
    using Suc.IH [OF t Suc.prems(2)] Suc.prems(3) by simp
  then show ?case
    using Suc.prems(3) [of n t s'] b by simp
qed

lemma plot_img_isl: "isl (plot_img net a u t) \<longleftrightarrow> isl (plot_img net a' u t')"
  by (simp add: plot_img_def split: sum.splits)

lemma plot_cell_fails:
  assumes "\<And>a t. isl (plot_img net a (url_arr ! i ! j) t)"
  shows "isl (plot_cell net url_arr titles axs i j fig)"
proof (cases "item2 axs j i")
  case (Inl e)
  then show ?thesis by (simp add: plot_cell_def)
next
  case (Inr pos)
  obtain a b where pos: "pos = (a, b)"
    by (cases pos) auto
  show ?thesis
  proof (cases "item2 url_arr i j")
    case (Inl e)
    then show ?thesis using Inr pos by (simp add: plot_cell_def)
  next
    case url: (Inr url)
    then have u: "url = url_arr ! i ! j"
      by (auto simp: item2_def split: if_splits)
    show ?thesis
    proof (cases "if j = 0 then map_sum id Some (item titles i) else Inr None")
      case (Inl e)
      then show ?thesis using Inr pos url by (simp add: plot_cell_def)
    next
      case t: (Inr t)
      obtain e where "plot_img net (fig ! a ! b) (url_arr ! i ! j) t = Inl e"
        using assms [of "fig ! a ! b" t] by (auto simp: isl_def)
      then show ?thesis
        using Inr pos url u t by (simp add: plot_cell_def)
    qed
  qed
qed

lemma plot_urls_fails:
  assumes "shape url_arr = (nx, ny)" and "i < nx" and "j < ny"
    and "\<And>axs fig. isl (plot_cell net url_arr titles axs i j fig)"
  shows "\<exists>e'. plot_urls net url_arr titles filename files = (Inl e', files)"
proof -
  have inner: "isl (for_each [0..<ny] (plot_cell net url_arr titles axs i) fig)" for axs fig
  proof (rule for_each_fails [where x = j])
    show "j \<in> set [0..<ny]" using assms(3) by simp
    show "isl (plot_cell net url_arr titles axs i j s)" for s by (rule assms(4))
  qed
  have outer: "isl (for_each [0..<nx] (\<lambda>i. for_each [0..<ny] (plot_cell net url_arr titles axs i)) fig)"
    for axs fig
  proof (rule for_each_fails [where x = i])
    show "i \<in> set [0..<nx]" using assms(2) by simp
    show "isl (for_each [0..<ny] (plot_cell net url_arr titles axs i) s)" for s by (rule inner)
  qed
  have "for_each [0..<nx] (\<lambda>i. for_each [0..<ny] (plot_cell net url_arr titles axs i)) fig
          \<noteq> Inr f" for axs fig f
    using outer [of axs fig] by (auto simp: isl_def)
  then show ?thesis
    using assms(1) by (simp add: plot_urls_def split: sum.splits prod.splits)
qed

text \<open>
  Claim C3. For every grid render, a network or decode failure while fetching any
  single thumbnail URL aborts the entire render: the exception leaves \<open>plot_urls\<close>,
  nothing is saved, and no placeholder stands in for the cell. The URL is any entry
  \<open>url_arr[i, j]\<close> of the grid; its fetch fails when \<open>plot_img\<close> raises on it.
\<close>

theorem plot_urls_aborts:
  assumes "shape url_arr = (nx, ny)" and "i < nx" and "j < ny"
    and "plot_img net axis (url_arr ! i ! j) title = Inl e"
  shows "\<exists>e'. plot_urls net url_arr titles filename files = (Inl e', files)"
proof -
  have "isl (plot_img net a (url_arr ! i ! j) t)" for a t
    using plot_img_isl [of net a "url_arr ! i ! j" t axis title] assms(4) by simp
  then have "isl (plot_cell net url_arr titles axs i j fig)" for axs fig
    by (rule plot_cell_fails)
  then show ?thesis
    using assms(1-3) by (rule plot_urls_fails [rotated 3])
qed

theorem plot_urls_aborts_witness:
  "shape demo_broken = (2, 2) \<and> (0::nat) < 2 \<and> (1::nat) < 2 \<and>
   plot_img demo_net (None, None) (demo_broken ! 0 ! 1) None = Inl RequestException \<and>
   (\<exists>e'. plot_urls demo_net demo_broken [''Original'', ''glass''] ''m.png'' [] = (Inl e', []))"
proof -
  have s: "shape demo_broken = (2, 2)"
    by (simp add: shape_def demo_broken_def)
  have i: "(0::nat) < 2" and j: "(1::nat) < 2"
    by simp_all
  have f: "plot_img demo_net (None, None) (demo_broken ! 0 ! 1) None = Inl RequestException"
    by (simp add: plot_img_def demo_net_def demo_broken_def)
  show ?thesis
    using plot_urls_aborts [OF s i j f] s f by simp
qed

subsection \<open>The figure of a render that returns\<close>

lemma plot_cell_Inr:
  assumes "plot_cell net url_arr titles axs i j fig = Inr fig'" and "item2 axs j i = Inr (a, b)"
  shows "\<exists>ax. plot_img net (fig ! a ! b) (url_arr ! i ! j)
                (if j = 0 then Some (titles ! i) else None) = Inr ax \<and>
              fig' = fig[a := (fig ! a)[b := ax]] \<and> (j = 0 \<longrightarrow> i < length titles)"
  using assms
  by (auto simp: plot_cell_def item2_def item_def split: sum.splits if_splits)

lemma filled_step:
  assumes inv: "filled net url_arr titles nx ny i jn fig" and i: "i < nx" and j: "jn < ny"
    and places: "item2 axs jn i = Inr (jn, i)"
    and cell: "plot_cell net url_arr titles axs i jn fig = Inr fig'"
  shows "filled net url_arr titles nx ny i (Suc jn) fig'"
proof -
  obtain ax where ax: "plot_img net (fig ! jn ! i) (url_arr ! i ! jn)
                         (if jn = 0 then Some (titles ! i) else None) = Inr ax"
    and fig': "fig' = fig[jn := (fig ! jn)[i := ax]]" and t: "jn = 0 \<longrightarrow> i < length titles"
    using plot_cell_Inr [OF cell places] by blast
  have len: "length fig = ny" and w: "\<And>j. j < ny \<Longrightarrow> length (fig ! j) = nx"
    using inv by (simp_all add: filled_def)
  have "fig ! jn ! i = (None, None)"
    using inv i j by (simp add: filled_def)
  then have sh: "shown net url_arr titles i jn ax"
    using ax by (simp add: shown_def)
  have nth: "fig' ! j' ! b = (if j' = jn \<and> b = i then ax else fig ! j' ! b)"
    if "j' < ny" "b < nx" for j' b
    using that len w [of jn] i j by (auto simp: fig' nth_list_update)
  have w': "length (fig' ! j') = nx" if "j' < ny" for j'
  proof -
    have "fig' ! j' = (if j' = jn then (fig ! jn)[i := ax] else fig ! j')"
      using that len by (simp add: fig' nth_list_update)
    then show ?thesis
      using w [OF that] by auto
  qed
  show ?thesis
    unfolding filled_def
  proof (intro conjI allI impI)
    show "length fig' = ny" by (simp add: fig' len)
  next
    fix j' assume "j' < ny"
    then show "length (fig' ! j') = nx" by (rule w')
  next
    fix j' b assume jb: "j' < ny" "b < nx"
    have old: "if b < i \<or> (b = i \<and> j' < jn)
               then shown net url_arr titles b j' (fig ! j' ! b) \<and> (j' = 0 \<longrightarrow> b < length titles)
               else fig ! j' ! b = (None, None)"
      using inv jb by (simp add: filled_def)
    show "if b < i \<or> (b = i \<and> j' < Suc jn)
          then shown net url_arr titles b j' (fig' ! j' ! b) \<and> (j' = 0 \<longrightarrow> b < length titles)
          else fig' ! j' ! b = (None, None)"
    proof (cases "j' = jn \<and> b = i")
      case True
      then show ?thesis using sh t nth [OF jb] by simp
    next
      case False
      then have "fig' ! j' ! b = fig ! j' ! b" using nth [OF jb] by auto
      moreover have "(b < i \<or> (b = i \<and> j' < Suc jn)) = (b < i \<or> (b = i \<and> j' < jn))"
        using False by auto
      ultimately show ?thesis using old by (simp only:)
    qed
  qed
qed

lemma filled_column:
  assumes "for_each [0..<ny] (plot_cell net url_arr titles axs i) fig = Inr fig'"
    and "filled net url_arr titles nx ny i 0 fig" and "i < nx"
    and "\<And>j. j < ny \<Longrightarrow> item2 axs j i = Inr (j, i)"
  shows "filled net url_arr titles nx ny (Suc i) 0 fig'"
proof -
  have "filled net url_arr titles nx ny i ny fig'"
    using assms(1,2)
  proof (rule for_range_invariant [where I = "filled net url_arr titles nx ny i"])
    fix j t t' assume "j < ny" "filled net url_arr titles nx ny i j t"
      "plot_cell net url_arr titles axs i j t = Inr t'"
    then show "filled net url_arr titles nx ny i (Suc j) t'"
      using filled_step assms(3,4) by blast
  qed
  moreover have "(b < Suc i \<or> (b = Suc i \<and> j < 0)) = (b < i \<or> (b = i \<and> j < ny))"
    if "j < ny" for j b
    using that by auto
  ultimately show ?thesis
    by (simp add: filled_def)
qed

lemma filled_grid:
  assumes "for_each [0..<nx] (\<lambda>i. for_each [0..<ny] (plot_cell net url_arr titles axs i))
             (replicate ny (replicate nx (None, None))) = Inr fig"
    and "\<And>i j. j < ny \<Longrightarrow> i < nx \<Longrightarrow> item2 axs j i = Inr (j, i)"
  shows "filled net url_arr titles nx ny nx 0 fig"
  using assms(1)
proof (rule for_range_invariant [where I = "\<lambda>i. filled net url_arr titles nx ny i 0"])
  show "filled net url_arr titles nx ny 0 0 (replicate ny (replicate nx (None, None)))"
    by (simp add: filled_def)
next
  fix i t t' assume "i < nx" "filled net url_arr titles nx ny i 0 t"
    "for_each [0..<ny] (plot_cell net url_arr titles axs i) t = Inr t'"
  then show "filled net url_arr titles nx ny (Suc i) 0 t'"
    using filled_column assms(2) by blast
qed

lemmas run_defs = test_all_def where_udf_def is_nice_obj_def collect_def getitem_def
  first_urls_def mediums_def cultures_def py_value_def

lemma axes_places:
  assumes "subplots ny nx = Inr (fig0, a)" and "reshape_1d a = Inr axs" and "2 \<le> nx"
  shows "fig0 = replicate ny (replicate nx (None, None))"
    and "j < ny \<Longrightarrow> i < nx \<Longrightarrow> item2 axs j i = Inr (j, i)"
proof -
  have ny: "ny \<noteq> 0"
    using assms(1) by (auto simp: subplots_def split: if_splits)
  show "fig0 = replicate ny (replicate nx (None, None))"
    using assms(1) by (auto simp: subplots_def split: if_splits)
  assume ji: "j < ny" "i < nx"
  show "item2 axs j i = Inr (j, i)"
  proof (cases "ny = 1")
    case True
    then have "axs = [map (\<lambda>i. (0, i)) [0..<nx]]"
      using assms by (auto simp: subplots_def split: if_splits)
    then show ?thesis
      using ji True by (simp add: item2_def)
  next
    case False
    then have "axs = map (\<lambda>j. map (\<lambda>i. (j, i)) [0..<nx]) [0..<ny]"
      using assms ny by (auto simp: subplots_def split: if_splits)
    then show ?thesis
      using ji by (simp add: item2_def)
  qed
qed

lemma plot_urls_Inr:
  assumes ok: "plot_urls net url_arr titles filename files = (Inr u, files')"
    and sh: "shape url_arr = (nx, ny)"
  shows "2 \<le> nx" and "1 \<le> ny"
    and "\<exists>fig. files' = files @ [(filename, fig)] \<and> filled net url_arr titles nx ny nx 0 fig"
proof -
  obtain fig0 a axs fig where sp: "subplots ny nx = Inr (fig0, a)"
    and re: "reshape_1d a = Inr axs"
    and loops: "for_each [0..<nx] (\<lambda>i. for_each [0..<ny] (plot_cell net url_arr titles axs i))
                  fig0 = Inr fig"
    and files': "files' = files @ [(filename, fig)]"
    using ok sh by (auto simp: plot_urls_def split: sum.splits prod.splits)
  have pos: "nx \<noteq> 0" "ny \<noteq> 0"
    using sp by (auto simp: subplots_def split: if_splits)
  show ny: "1 \<le> ny"
    using pos by simp
  show nx: "2 \<le> nx"
  proof (rule ccontr)
    assume "\<not> 2 \<le> nx"
    then have one: "nx = 1"
      using pos by simp
    have "ny \<noteq> 1"
      using sp re one by (auto simp: subplots_def split: if_splits)
    then have two: "1 < ny"
      using pos by simp
    have axs: "axs = [map (\<lambda>j. (j, 0)) [0..<ny]]"
      using sp re one two by (auto simp: subplots_def split: if_splits)
    have "isl (for_each [0..<ny] (plot_cell net url_arr titles axs 0) fig0)"
    proof (rule for_each_fails [where x = 1])
      show "1 \<in> set [0..<ny]" using two by simp
      show "isl (plot_cell net url_arr titles axs 0 1 s)" for s
        by (simp add: plot_cell_def item2_def axs)
    qed
    then show False
      using loops one by (auto simp: isl_def split: sum.splits)
  qed
  have "filled net url_arr titles nx ny nx 0 fig"
    using loops axes_places [OF sp re nx] by (intro filled_grid) simp_all
  then show "\<exists>fig. files' = files @ [(filename, fig)] \<and> filled net url_arr titles nx ny nx 0 fig"
    using files' by blast
qed

lemma plot_img_displays: "plot_img net a url t = Inr ax \<Longrightarrow> displays net ax url"
  by (auto simp: plot_img_def displays_def split: sum.splits)

lemma first_value_Inr: "first_value c = Inr u \<Longrightarrow> \<exists>m ms. c = MatchesC (m # ms) \<and> u = py_value (value_of m)"
  by (induction c rule: first_value.induct) simp_all

lemma for_list_length: "for_list f xs = Inr ys \<Longrightarrow> length ys = length xs"
  using for_list_all2 list_all2_lengthD by fastforce

lemma for_list_nth: "for_list f xs = Inr ys \<Longrightarrow> n < length xs \<Longrightarrow> f (xs ! n) = Inr (ys ! n)"
  using for_list_all2 [of f xs ys] by (simp add: list_all2_conv_all_nth)

lemma first_urls_nth:
  assumes "first_urls results labels = Inr urls" and "c < length labels" and "j < length results"
  shows "length urls = length labels" and "length (urls ! c) = length results"
    and "\<exists>m ms. getitem (results ! j) (match_column (labels ! c)) = Inr (MatchesC (m # ms)) \<and>
                urls ! c ! j = py_value (value_of m)"
proof -
  let ?f = "\<lambda>label. for_list (\<lambda>row. case getitem row (match_column label) of
                                      Inl e \<Rightarrow> Inl e | Inr c \<Rightarrow> first_value c) results"
  have fl: "for_list ?f labels = Inr urls"
    using assms(1) by (simp add: first_urls_def)
  show "length urls = length labels"
    using fl by (rule for_list_length)
  have row: "?f (labels ! c) = Inr (urls ! c)"
    using fl assms(2) by (rule for_list_nth)
  show "length (urls ! c) = length results"
    using row by (rule for_list_length)
  have "(case getitem (results ! j) (match_column (labels ! c)) of
           Inl e \<Rightarrow> Inl e | Inr c \<Rightarrow> first_value c) = Inr (urls ! c ! j)"
    using row assms(3) by (rule for_list_nth)
  then obtain cell where "getitem (results ! j) (match_column (labels ! c)) = Inr cell"
    and "first_value cell = Inr (urls ! c ! j)"
    by (auto split: sum.splits)
  then show "\<exists>m ms. getitem (results ! j) (match_column (labels ! c)) = Inr (MatchesC (m # ms)) \<and>
                urls ! c ! j = py_value (value_of m)"
    using first_value_Inr by blast
qed

lemma presented:
  assumes o: "for_list (\<lambda>row. getitem row ''Thumbnail_Url'') results = Inr originals"
    and f: "first_urls results labels = Inr urls"
    and p: "plot_urls net (originals # urls) titles filename files = (Inr u, files')"
  shows "\<exists>fig. files' = files @ [(filename, fig)] \<and> length fig = length results \<and>
           (\<forall>j<length results. presents net (results ! j) labels (fig ! j))"
proof -
  have lo: "length originals = length results"
    using o by (rule for_list_length)
  have lu: "length urls = length labels"
    using f by (simp add: first_urls_def for_list_length)
  have sh: "shape (originals # urls) = (Suc (length labels), length results)"
    by (simp add: shape_def lo lu)
  obtain fig where files': "files' = files @ [(filename, fig)]"
    and fl: "filled net (originals # urls) titles (Suc (length labels)) (length results)
               (Suc (length labels)) 0 fig"
    using plot_urls_Inr(3) [OF p sh] by blast
  have "presents net (results ! j) labels (fig ! j)" if j: "j < length results" for j
  proof -
    have w: "length (fig ! j) = Suc (length labels)"
      and cells: "\<And>b. b < Suc (length labels) \<Longrightarrow>
                   shown net (originals # urls) titles b j (fig ! j ! b)"
      using fl j by (simp_all add: filled_def)
    have "displays net (fig ! j ! 0) (originals ! j)"
      using cells [of 0] by (auto simp: shown_def intro: plot_img_displays)
    moreover have "getitem (results ! j) ''Thumbnail_Url'' = Inr (originals ! j)"
      using o j by (rule for_list_nth)
    moreover have "displays_first net (fig ! j ! Suc c)
                     (getitem (results ! j) (match_column (labels ! c)))"
      if c: "c < length labels" for c
    proof -
      obtain m ms where g: "getitem (results ! j) (match_column (labels ! c)) = Inr (MatchesC (m # ms))"
        and v: "urls ! c ! j = py_value (value_of m)"
        using first_urls_nth(3) [OF f c j] by blast
      have "displays net (fig ! j ! Suc c) (urls ! c ! j)"
        using cells [of "Suc c"] c by (auto simp: shown_def intro: plot_img_displays)
      then show ?thesis
        using g v by (simp add: displays_first_def)
    qed
    ultimately show ?thesis
      using w by (simp add: presents_def list_all_iff)
  qed
  moreover have "length fig = length results"
    using fl by (simp add: filled_def)
  ultimately show ?thesis
    using files' by blast
qed

lemma test_all_Inr:
  assumes "test_all tr net data cknn_medium cknn_culture test_ids root_dir = (Inr out', files)"
  shows "\<exists>originals culture_urls medium_urls files1 u1 u2.
           for_list (\<lambda>row. getitem row ''Thumbnail_Url'') (collect out') = Inr originals \<and>
           first_urls (collect out') cultures = Inr culture_urls \<and>
           plot_urls net (originals # culture_urls) (''Original'' # cultures)
             (root_dir @ ''matches_by_culture.png'') [] = (Inr u1, files1) \<and>
           first_urls (collect out') mediums = Inr medium_urls \<and>
           plot_urls net (originals # medium_urls) (''Original'' # mediums)
             (root_dir @ ''matches_by_medium.png'') files1 = (Inr u2, files)"
  using assms by (auto simp: test_all_def split: sum.splits prod.splits)

text \<open>
  Claim C5. The presenter arranges the rendered output as a grid with one column per
  query entity and one row per (original + each condition), with the condition/query
  labels as the row/column titles.

  The figure is the transpose of that. For a grid of URLs with three rows (the
  originals and two conditions) and two columns (two query entities), the figure has
  two rows of three subplots: a row per query entity, a column per original or
  condition. The titles are on the first row only.
\<close>

theorem plot_urls_row_per_entity:
  "shape demo_urls = (3, 2) \<and>
   plot_urls demo_net demo_urls [''Original'', ''glass'', ''prints''] ''m.png'' [] =
     (Inr (),
      [(''m.png'',
        [[(Some ''a'', Some ''Original''), (Some ''c'', Some ''glass''),
          (Some ''e'', Some ''prints'')],
         [(Some ''b'', None), (Some ''d'', None), (Some ''f'', None)]])])"
  by (simp add: plot_defs demo_net_def demo_urls_def upt_rec)

text \<open>
  Claim C5, as the code has it. When \<open>plot_urls\<close> returns for a grid of URLs with
  \<open>nx\<close> rows (the originals and one row per condition) and \<open>ny\<close> columns (one per
  query entity), it has saved one figure under the file name: the figure has \<open>ny\<close>
  rows, one per query entity, of \<open>nx\<close> subplots each, one per original or condition;
  the subplot in row \<open>j\<close> and column \<open>i\<close> shows the image of \<open>url_arr[i, j]\<close>; the
  subplots of the first row are titled \<open>titles[i]\<close>, and no other subplot has a title.
\<close>

theorem plot_urls_grid:
  assumes "plot_urls net url_arr titles filename files = (Inr u, files')"
    and "shape url_arr = (nx, ny)"
  shows "\<exists>fig. files' = files @ [(filename, fig)] \<and> length fig = ny \<and>
           (\<forall>j<ny. length (fig ! j) = nx \<and>
              (\<forall>i<nx. plot_img net (None, None) (url_arr ! i ! j)
                         (if j = 0 then Some (titles ! i) else None) = Inr (fig ! j ! i)))"
proof -
  obtain fig where f: "files' = files @ [(filename, fig)]"
    and fl: "filled net url_arr titles nx ny nx 0 fig"
    using plot_urls_Inr(3) [OF assms] by blast
  have "length fig = ny"
    using fl by (simp add: filled_def)
  moreover have "length (fig ! j) = nx \<and>
                 (\<forall>i<nx. plot_img net (None, None) (url_arr ! i ! j)
                            (if j = 0 then Some (titles ! i) else None) = Inr (fig ! j ! i))"
    if "j < ny" for j
    using fl that by (simp add: filled_def shown_def)
  ultimately show ?thesis
    using f by blast
qed

theorem plot_urls_grid_witness:
  "plot_urls demo_net demo_urls [''Original'', ''glass'', ''prints''] ''m.png'' [] =
     (Inr (),
      [(''m.png'',
        [[(Some ''a'', Some ''Original''), (Some ''c'', Some ''glass''),
          (Some ''e'', Some ''prints'')],
         [(Some ''b'', None), (Some ''d'', None), (Some ''f'', None)]])]) \<and>
   shape demo_urls = (3, 2) \<and>
   (\<exists>fig. [(''m.png'',
            [[(Some ''a'', Some ''Original''), (Some ''c'', Some ''glass''),
              (Some ''e'', Some ''prints'')],
             [(Some ''b'', None), (Some ''d'', None), (Some ''f'', None)]])]
           = [] @ [(''m.png'', fig)] \<and> length fig = 2 \<and>
      (\<forall>j<2. length (fig ! j) = 3 \<and>
         (\<forall>i<3. plot_img demo_net (None, None) (demo_urls ! i ! j)
                    (if j = 0 then Some ([''Original'', ''glass'', ''prints''] ! i) else None)
                  = Inr (fig ! j ! i))))"
proof -
  have r: "plot_urls demo_net demo_urls [''Original'', ''glass'', ''prints''] ''m.png'' [] =
     (Inr (),
      [(''m.png'',
        [[(Some ''a'', Some ''Original''), (Some ''c'', Some ''glass''),
          (Some ''e'', Some ''prints'')],
         [(Some ''b'', None), (Some ''d'', None), (Some ''f'', None)]])])"
    by (simp add: plot_defs demo_net_def demo_urls_def upt_rec)
  have s: "shape demo_urls = (3, 2)"
    by (simp add: shape_def demo_urls_def)
  show ?thesis
    using plot_urls_grid [OF r s] r s by blast
qed

subsection \<open>What the two figures of a run show\<close>

lemma demo_run:
  "test_all transform demo_net demo_store demo_medium demo_culture {''a2''} ''./'' =
     (Inr demo_results,
      [(''./matches_by_culture.png'',
        [[(Some ''u2'', Some ''Original''), (Some ''u1'', Some ''japanese''),
          (Some ''u2'', Some ''american''), (Some ''u3'', Some ''african (general)'')]]),
       (''./matches_by_medium.png'',
        [[(Some ''u2'', Some ''Original''), (Some ''u1'', Some ''paintings''),
          (Some ''u2'', Some ''glass''), (Some ''u3'', Some ''ceramics'')]])])"
  by (simp add: run_defs plot_defs table_defs demo_net_def demo_store_def demo_medium_def
        demo_culture_def demo_metric_def demo_results_def upt_rec)

text \<open>
  Claim C7. For each query row and each condition, the presenter displays exactly the
  row's original thumbnail together with the first (index 0) value of that condition's
  match result. When \<open>test_all\<close> returns, it has written the two figures, each with
  one row of subplots per row of the returned table; the row of subplots has exactly
  one subplot for the original and one per label, and they display the row's
  \<open>Thumbnail_Url\<close> and the value of element 0 of the row's match list of each label.
\<close>

theorem test_all_presents:
  assumes "test_all tr net data cknn_medium cknn_culture test_ids root_dir = (Inr out', files)"
  shows "\<exists>figc figm.
           files = [(root_dir @ ''matches_by_culture.png'', figc),
                    (root_dir @ ''matches_by_medium.png'', figm)] \<and>
           length figc = length (rows out') \<and> length figm = length (rows out') \<and>
           (\<forall>j<length (rows out').
              presents net (collect out' ! j) cultures (figc ! j) \<and>
              presents net (collect out' ! j) mediums (figm ! j))"
proof -
  obtain originals culture_urls medium_urls files1 u1 u2 where
    o: "for_list (\<lambda>row. getitem row ''Thumbnail_Url'') (collect out') = Inr originals"
    and fc: "first_urls (collect out') cultures = Inr culture_urls"
    and pc: "plot_urls net (originals # culture_urls) (''Original'' # cultures)
               (root_dir @ ''matches_by_culture.png'') [] = (Inr u1, files1)"
    and fm: "first_urls (collect out') mediums = Inr medium_urls"
    and pm: "plot_urls net (originals # medium_urls) (''Original'' # mediums)
               (root_dir @ ''matches_by_medium.png'') files1 = (Inr u2, files)"
    using test_all_Inr [OF assms] by blast
  have n: "length (collect out') = length (rows out')"
    by (simp add: collect_def)
  obtain figc where c: "files1 = [(root_dir @ ''matches_by_culture.png'', figc)]"
    "length figc = length (rows out')"
    "\<forall>j<length (rows out'). presents net (collect out' ! j) cultures (figc ! j)"
    using presented [OF o fc pc] n by auto
  obtain figm where m: "files = files1 @ [(root_dir @ ''matches_by_medium.png'', figm)]"
    "length figm = length (rows out')"
    "\<forall>j<length (rows out'). presents net (collect out' ! j) mediums (figm ! j)"
    using presented [OF o fm pm] n by auto
  show ?thesis
    using c m by auto
qed

theorem test_all_presents_witness:
  "test_all transform demo_net demo_store demo_medium demo_culture {''a2''} ''./'' =
     (Inr demo_results,
      [(''./matches_by_culture.png'',
        [[(Some ''u2'', Some ''Original''), (Some ''u1'', Some ''japanese''),
          (Some ''u2'', Some ''american''), (Some ''u3'', Some ''african (general)'')]]),
       (''./matches_by_medium.png'',
        [[(Some ''u2'', Some ''Original''), (Some ''u1'', Some ''paintings''),
          (Some ''u2'', Some ''glass''), (Some ''u3'', Some ''ceramics'')]])]) \<and>
   presents demo_net (collect demo_results ! 0) cultures
     [(Some ''u2'', Some ''Original''), (Some ''u1'', Some ''japanese''),
      (Some ''u2'', Some ''american''), (Some ''u3'', Some ''african (general)'')] \<and>
   presents demo_net (collect demo_results ! 0) mediums
     [(Some ''u2'', Some ''Original''), (Some ''u1'', Some ''paintings''),
      (Some ''u2'', Some ''glass''), (Some ''u3'', Some ''ceramics'')]"
proof -
  have "0 < length (rows demo_results)"
    by (simp add: demo_results_def)
  then show ?thesis
    using test_all_presents [OF demo_run] demo_run by auto
qed

subsection \<open>A run needs a match for every condition\<close>

lemma for_list_mem: "for_list f xs = Inr ys \<Longrightarrow> x \<in> set xs \<Longrightarrow> \<exists>y. f x = Inr y"
  by (induction xs arbitrary: ys) (auto split: sum.splits)

lemma first_urls_mem:
  assumes "first_urls results labels = Inr urls" and "r \<in> set results" and "l \<in> set labels"
  shows "\<exists>m ms. getitem r (match_column l) = Inr (MatchesC (m # ms))"
proof -
  obtain us where "for_list (\<lambda>row. case getitem row (match_column l) of
                                      Inl e \<Rightarrow> Inl e | Inr c \<Rightarrow> first_value c) results = Inr us"
    using for_list_mem [OF assms(1) [unfolded first_urls_def] assms(3)] by blast
  from for_list_mem [OF this assms(2)]
  obtain c v where "getitem r (match_column l) = Inr c" and "first_value c = Inr v"
    by (auto split: sum.splits)
  then show ?thesis
    using first_value_Inr by blast
qed

text \<open>
  Claim C9. \<open>test_all\<close> is total only when every condition's match result is non-empty
  for every query row: the extraction reads element 0 of each match list without a
  check. Whenever \<open>test_all\<close> returns, every row of the returned table holds a
  non-empty match list for every medium and every culture; and there is an input with
  an empty match result (a culture index without a Japanese entity) on which
  \<open>test_all\<close> raises \<open>IndexError\<close>, with no placeholder and no file written.
\<close>

theorem test_all_needs_matches:
  "(test_all tr net data cknn_medium cknn_culture test_ids root_dir = (Inr out', files) \<longrightarrow>
      list_all (\<lambda>r. list_all (\<lambda>l. \<exists>m ms. getitem r (match_column l) = Inr (MatchesC (m # ms)))
                      (mediums @ cultures)) (collect out')) \<and>
   query demo_american [1] [''japanese''] = [] \<and>
   test_all transform demo_net demo_store demo_medium demo_american {''a2''} ''./'' =
     (Inl IndexError, [])"
proof (intro conjI impI)
  assume "test_all tr net data cknn_medium cknn_culture test_ids root_dir = (Inr out', files)"
  from test_all_Inr [OF this]
  obtain originals culture_urls medium_urls files1 u1 u2 where
    "for_list (\<lambda>row. getitem row ''Thumbnail_Url'') (collect out') = Inr originals"
    and fc: "first_urls (collect out') cultures = Inr culture_urls"
    and "plot_urls net (originals # culture_urls) (''Original'' # cultures)
           (root_dir @ ''matches_by_culture.png'') [] = (Inr u1, files1)"
    and fm: "first_urls (collect out') mediums = Inr medium_urls"
    and "plot_urls net (originals # medium_urls) (''Original'' # mediums)
           (root_dir @ ''matches_by_medium.png'') files1 = (Inr u2, files)"
    by blast
  from fc fm show "list_all (\<lambda>r. list_all (\<lambda>l. \<exists>m ms. getitem r (match_column l) =
                                              Inr (MatchesC (m # ms)))
                             (mediums @ cultures)) (collect out')"
    using first_urls_mem by (fastforce simp: list_all_iff)
next
  show "query demo_american [1] [''japanese''] = []"
    by (simp add: query_def demo_american_def demo_culture_def)
next
  show "test_all transform demo_net demo_store demo_medium demo_american {''a2''} ''./'' =
          (Inl IndexError, [])"
    by (simp add: run_defs plot_defs table_defs demo_net_def demo_store_def demo_medium_def
          demo_culture_def demo_american_def demo_metric_def upt_rec)
qed

theorem test_all_needs_matches_witness:
  "test_all transform demo_net demo_store demo_medium demo_culture {''a2''} ''./'' =
     (Inr demo_results,
      [(''./matches_by_culture.png'',
        [[(Some ''u2'', Some ''Original''), (Some ''u1'', Some ''japanese''),
          (Some ''u2'', Some ''american''), (Some ''u3'', Some ''african (general)'')]]),
       (''./matches_by_medium.png'',
        [[(Some ''u2'', Some ''Original''), (Some ''u1'', Some ''paintings''),
          (Some ''u2'', Some ''glass''), (Some ''u3'', Some ''ceramics'')]])]) \<and>
   list_all (\<lambda>r. list_all (\<lambda>l. \<exists>m ms. getitem r (match_column l) = Inr (MatchesC (m # ms)))
                   (mediums @ cultures)) (collect demo_results)"
  using test_all_needs_matches [THEN conjunct1, THEN mp, OF demo_run] demo_run by simp

end
